theory Spec2Isabelle
  imports Main "HOL-Library.AList"
begin

section \<open>Errors\<close>

text \<open>
  The exceptions that the merge engine of \<^verbatim>\<open>podiffutils.py\<close> can raise. Every
  \<^verbatim>\<open>raise\<close>, failing \<^verbatim>\<open>assert\<close> and failing
  attribute or dictionary access of the source is a value \<open>Inl e\<close> of the model.
  \<open>Unmodelled\<close> is no exception of the program: it marks the one place where a library
  function is modelled on a part of its domain only (the conversion specifications of the
  string formatting operator other than \<^verbatim>\<open>%s\<close> and \<^verbatim>\<open>%%\<close>).
\<close>

datatype error =
    ValueError
  | AssertionError
  | KeyError
  | IndexError
  | TypeError
  | AttributeError
  | Unmodelled

section \<open>Simple three-way merge of a scalar\<close>

text \<open>
  \<^verbatim>\<open>DiffUtils.merge_simple\<close>: the three comparisons in the order of the source,
  and the \<^verbatim>\<open>raise ValueError\<close> when none of them holds. Python's \<^verbatim>\<open>==\<close>
  is HOL equality on the value type.
\<close>

definition merge_simple :: "'a \<Rightarrow> 'a \<Rightarrow> 'a \<Rightarrow> error + 'a" where
  "merge_simple base local remote =
     (if base = remote then Inr local
      else if base = local then Inr remote
      else if local = remote then Inr local
      else Inl ValueError)"

section \<open>Walker\<close>

text \<open>
  \<^verbatim>\<open>_Walker\<close>: an iterator together with its current element and a validity
  flag. \<open>w_iter\<close> holds the elements the iterator has not produced yet. The constructor
  sets the flag and advances once.
\<close>

record 'u Walker =
  w_iter :: "'u list"
  w_current :: "'u option"
  w_valid :: bool

definition walker_next :: "'u Walker \<Rightarrow> 'u Walker" where
  "walker_next w =
     (if w_valid w then
        (case w_iter w of
           x # xs \<Rightarrow> w\<lparr>w_iter := xs, w_current := Some x\<rparr>
         | [] \<Rightarrow> w\<lparr>w_current := None, w_valid := False\<rparr>)
      else w)"

definition Walker_init :: "'u list \<Rightarrow> 'u Walker" where
  "Walker_init it = walker_next \<lparr>w_iter = it, w_current = None, w_valid = True\<rparr>"

section \<open>Matcher items and the item map\<close>

text \<open>
  \<^verbatim>\<open>_Item\<close>, \<^verbatim>\<open>_Item2\<close> and \<^verbatim>\<open>_Item3\<close>: the slot of one key, with the
  units of each side and the \<^verbatim>\<open>done\<close> flag. The item map is a dictionary from keys
  to items; it is an association list here, so that the final assertion can run over
  all its values. Only the presence of a key and the item stored under it are read, never
  the order.
\<close>

record Item =
  i_done :: bool

record 'u Item2 = Item +
  i_old :: "'u option"
  i_new :: "'u option"

record 'u Item3 = Item +
  i_base :: "'u option"
  i_local :: "'u option"
  i_remote :: "'u option"

definition new_Item2 :: "'u Item2" where
  "new_Item2 = \<lparr>i_done = False, i_old = None, i_new = None\<rparr>"

definition new_Item3 :: "'u Item3" where
  "new_Item3 = \<lparr>i_done = False, i_base = None, i_local = None, i_remote = None\<rparr>"

text \<open>
  \<^verbatim>\<open>_SetMatcherBase._fill_item_map\<close>. The argument \<open>item_type\<close> is the fresh item
  of the matcher class and \<open>setfield\<close> is \<^verbatim>\<open>setattr(item, field, unit)\<close> for the
  field that is filled.
\<close>

fun fill_item_map ::
  "('u \<Rightarrow> 'k) \<Rightarrow> 'i \<Rightarrow> ('u \<Rightarrow> 'i \<Rightarrow> 'i) \<Rightarrow> 'u list \<Rightarrow> ('k \<times> 'i) list \<Rightarrow> ('k \<times> 'i) list" where
  "fill_item_map keyfunc item_type setfield [] item_map = item_map"
| "fill_item_map keyfunc item_type setfield (unit # units) item_map =
     (let key = keyfunc unit;
          item = (case map_of item_map key of Some i \<Rightarrow> i | None \<Rightarrow> item_type)
      in fill_item_map keyfunc item_type setfield units
           (AList.update key (setfield unit item) item_map))"

text \<open>
  \<^verbatim>\<open>_SetMatcherBase._item\<close>: the dictionary access raises \<^verbatim>\<open>KeyError\<close> for a key
  that is not in the map.
\<close>

definition item_of :: "('u \<Rightarrow> 'k) \<Rightarrow> ('k \<times> 'i) list \<Rightarrow> 'u \<Rightarrow> error + 'i" where
  "item_of keyfunc item_map unit =
     (case map_of item_map (keyfunc unit) of None \<Rightarrow> Inl KeyError | Some i \<Rightarrow> Inr i)"

text \<open>
  \<^verbatim>\<open>w.get()\<close> where the source has just tested \<^verbatim>\<open>w.valid()\<close>. A valid walker
  always holds an element; were it to hold \<^verbatim>\<open>None\<close>, the key function would be
  applied to \<^verbatim>\<open>None\<close>, which is an error here.
\<close>

definition walker_get :: "'u Walker \<Rightarrow> error + 'u" where
  "walker_get w = (case w_current w of None \<Rightarrow> Inl TypeError | Some u \<Rightarrow> Inr u)"

text \<open>
  The two sweeps at the end of the loop body,
  \<^verbatim>\<open>while w.valid() and self._item(w.get()).done: w.next()\<close>.
\<close>

function skip_done ::
  "('u \<Rightarrow> 'k) \<Rightarrow> ('k \<times> ('i :: type) Item_scheme) list \<Rightarrow> 'u Walker \<Rightarrow> error + 'u Walker" where
  "skip_done keyfunc item_map w =
     (if w_valid w then
        (case walker_get w of
           Inl e \<Rightarrow> Inl e
         | Inr u \<Rightarrow>
             (case item_of keyfunc item_map u of
                Inl e \<Rightarrow> Inl e
              | Inr i \<Rightarrow> if i_done i then skip_done keyfunc item_map (walker_next w) else Inr w))
      else Inr w)"
  by pat_completeness auto
termination
  by (relation "measure (\<lambda>(keyfunc, item_map, w). length (w_iter w) + (if w_valid w then 1 else 0))")
     (auto simp: walker_next_def split: list.splits)

declare skip_done.simps [simp del]

section \<open>Three-way set matcher\<close>

text \<open>
  The state of one run of \<^verbatim>\<open>SetMatcher3.match\<close>: the item map, the three walkers
  and the triples yielded so far.
\<close>

type_synonym 'u triple = "'u option \<times> 'u option \<times> 'u option"

record ('k, 'u) state3 =
  item_map3 :: "('k \<times> 'u Item3) list"
  bw :: "'u Walker"
  lw :: "'u Walker"
  rw :: "'u Walker"
  emitted3 :: "'u triple list"

text \<open>
  The local function \<^verbatim>\<open>not_local\<close>. \<open>deletedfunc\<close> is a function of units; the
  source would apply it to \<^verbatim>\<open>None\<close> if the item had no remote unit, which is an
  error here.
\<close>

definition not_local ::
  "('u \<Rightarrow> 'k) \<Rightarrow> ('u \<Rightarrow> bool) \<Rightarrow> ('k \<times> 'u Item3) list \<Rightarrow> 'u \<Rightarrow> error + bool" where
  "not_local keyfunc deletedfunc item_map unit =
     (case item_of keyfunc item_map unit of
        Inl e \<Rightarrow> Inl e
      | Inr i \<Rightarrow>
          (case i_local i of
             None \<Rightarrow> Inr True
           | Some l \<Rightarrow>
               if deletedfunc l then
                 (case i_remote i of None \<Rightarrow> Inl TypeError | Some r \<Rightarrow> Inr (\<not> deletedfunc r))
               else Inr False))"

text \<open>
  The four lines shared by both branches of the loop body:
  \<^verbatim>\<open>i = self._item(unit); assert not i.done; yield (i.base, i.local, i.remote); i.done = True\<close>.
\<close>

definition emit3 :: "('u \<Rightarrow> 'k) \<Rightarrow> ('k, 'u) state3 \<Rightarrow> 'u \<Rightarrow> error + ('k, 'u) state3" where
  "emit3 keyfunc s unit =
     (case item_of keyfunc (item_map3 s) unit of
        Inl e \<Rightarrow> Inl e
      | Inr i \<Rightarrow>
          if i_done i then Inl AssertionError
          else Inr (s\<lparr>emitted3 := emitted3 s @ [(i_base i, i_local i, i_remote i)],
                      item_map3 := AList.update (keyfunc unit) (i\<lparr>i_done := True\<rparr>) (item_map3 s)\<rparr>))"

text \<open>The condition of the first branch: \<^verbatim>\<open>rw.valid() and not_local(rw.get())\<close>.\<close>

definition inject_remote ::
  "('u \<Rightarrow> 'k) \<Rightarrow> ('u \<Rightarrow> bool) \<Rightarrow> ('k, 'u) state3 \<Rightarrow> error + bool" where
  "inject_remote keyfunc deletedfunc s =
     (if w_valid (rw s) then
        (case walker_get (rw s) of
           Inl e \<Rightarrow> Inl e
         | Inr u \<Rightarrow> not_local keyfunc deletedfunc (item_map3 s) u)
      else Inr False)"

text \<open>The \<^verbatim>\<open>if\<close>/\<^verbatim>\<open>elif\<close> of the loop body; when neither holds nothing is emitted.\<close>

definition choose3 ::
  "('u \<Rightarrow> 'k) \<Rightarrow> ('u \<Rightarrow> bool) \<Rightarrow> ('k, 'u) state3 \<Rightarrow> error + ('k, 'u) state3" where
  "choose3 keyfunc deletedfunc s =
     (case inject_remote keyfunc deletedfunc s of
        Inl e \<Rightarrow> Inl e
      | Inr True \<Rightarrow>
          (case walker_get (rw s) of
             Inl e \<Rightarrow> Inl e
           | Inr u \<Rightarrow>
               (case emit3 keyfunc s u of
                  Inl e \<Rightarrow> Inl e
                | Inr s' \<Rightarrow> Inr (s'\<lparr>rw := walker_next (rw s')\<rparr>)))
      | Inr False \<Rightarrow>
          if w_valid (lw s) then
            (case walker_get (lw s) of
               Inl e \<Rightarrow> Inl e
             | Inr u \<Rightarrow>
                 (case emit3 keyfunc s u of
                    Inl e \<Rightarrow> Inl e
                  | Inr s' \<Rightarrow> Inr (s'\<lparr>lw := walker_next (lw s')\<rparr>)))
          else Inr s)"

text \<open>
  A failure of the generator keeps the triples that were yielded before it: the consumer
  has already seen them.
\<close>

type_synonym 'u failure3 = "error \<times> 'u triple list"

definition loop_body3 ::
  "('u \<Rightarrow> 'k) \<Rightarrow> ('u \<Rightarrow> bool) \<Rightarrow> ('k, 'u) state3 \<Rightarrow> 'u failure3 + ('k, 'u) state3" where
  "loop_body3 keyfunc deletedfunc s =
     (case choose3 keyfunc deletedfunc s of
        Inl e \<Rightarrow> Inl (e, emitted3 s)
      | Inr s1 \<Rightarrow>
          (case skip_done keyfunc (item_map3 s1) (rw s1) of
             Inl e \<Rightarrow> Inl (e, emitted3 s1)
           | Inr rw' \<Rightarrow>
               (case skip_done keyfunc (item_map3 s1) (lw s1) of
                  Inl e \<Rightarrow> Inl (e, emitted3 s1)
                | Inr lw' \<Rightarrow> Inr (s1\<lparr>rw := rw', lw := lw'\<rparr>))))"

text \<open>
  \<^verbatim>\<open>while lw.valid() or rw.valid():\<close>. The body advances no walker when neither
  branch applies and both sweeps stop at once, so the loop is a partial function:
  \<open>None\<close> is a run that does not return.
\<close>

partial_function (option) main_loop3 ::
  "('u \<Rightarrow> 'k) \<Rightarrow> ('u \<Rightarrow> bool) \<Rightarrow> ('k, 'u) state3 \<Rightarrow> ('u failure3 + ('k, 'u) state3) option" where
  "main_loop3 keyfunc deletedfunc s =
     (if w_valid (lw s) \<or> w_valid (rw s) then
        (case loop_body3 keyfunc deletedfunc s of
           Inl f \<Rightarrow> Some (Inl f)
         | Inr s' \<Rightarrow> main_loop3 keyfunc deletedfunc s')
      else Some (Inr s))"

declare main_loop3.simps [code]

text \<open>
  The loop that emits the remaining units of base. The second \<^verbatim>\<open>i.done = True\<close> of
  the source is the unconditional update below.
\<close>

function drain_base ::
  "('u \<Rightarrow> 'k) \<Rightarrow> ('k, 'u) state3 \<Rightarrow> 'u failure3 + ('k, 'u) state3" where
  "drain_base keyfunc s =
     (if w_valid (bw s) then
        (case walker_get (bw s) of
           Inl e \<Rightarrow> Inl (e, emitted3 s)
         | Inr u \<Rightarrow>
             (case item_of keyfunc (item_map3 s) u of
                Inl e \<Rightarrow> Inl (e, emitted3 s)
              | Inr i \<Rightarrow>
                  drain_base keyfunc
                    (s\<lparr>emitted3 := (if i_done i then emitted3 s
                                     else emitted3 s @ [(i_base i, i_local i, i_remote i)]),
                       item_map3 := AList.update (keyfunc u) (i\<lparr>i_done := True\<rparr>) (item_map3 s),
                       bw := walker_next (bw s)\<rparr>)))
      else Inr s)"
  by pat_completeness auto
termination
  by (relation "measure (\<lambda>(keyfunc, s). length (w_iter (bw s)) + (if w_valid (bw s) then 1 else 0))")
     (auto simp: walker_next_def split: list.splits)

declare drain_base.simps [simp del]

text \<open>The four assertions that end \<^verbatim>\<open>SetMatcher3.match\<close>.\<close>

definition final_asserts3 :: "('k, 'u) state3 \<Rightarrow> bool" where
  "final_asserts3 s \<longleftrightarrow>
     \<not> w_valid (lw s) \<and> \<not> w_valid (rw s) \<and> \<not> w_valid (bw s)
     \<and> [i \<leftarrow> map snd (item_map3 s). \<not> i_done i] = []"

definition init3 :: "('u \<Rightarrow> 'k) \<Rightarrow> 'u list \<Rightarrow> 'u list \<Rightarrow> 'u list \<Rightarrow> ('k, 'u) state3" where
  "init3 keyfunc base local remote =
     \<lparr>item_map3 =
        fill_item_map keyfunc new_Item3 (\<lambda>u i. i\<lparr>i_remote := Some u\<rparr>) remote
          (fill_item_map keyfunc new_Item3 (\<lambda>u i. i\<lparr>i_local := Some u\<rparr>) local
            (fill_item_map keyfunc new_Item3 (\<lambda>u i. i\<lparr>i_base := Some u\<rparr>) base [])),
      bw = Walker_init base, lw = Walker_init local, rw = Walker_init remote,
      emitted3 = []\<rparr>"

text \<open>
  \<^verbatim>\<open>SetMatcher3.match\<close>, run to its end. The result \<open>Some (ts, None)\<close> is a generator
  that yields \<open>ts\<close> and finishes, \<open>Some (ts, Some e)\<close> one that yields \<open>ts\<close> and then
  raises \<open>e\<close>, and \<open>None\<close> one whose main loop does not return.
\<close>

definition match3 ::
  "('u \<Rightarrow> 'k) \<Rightarrow> ('u \<Rightarrow> bool) \<Rightarrow> 'u list \<Rightarrow> 'u list \<Rightarrow> 'u list
     \<Rightarrow> ('u triple list \<times> error option) option" where
  "match3 keyfunc deletedfunc base local remote =
     (case main_loop3 keyfunc deletedfunc (init3 keyfunc base local remote) of
        None \<Rightarrow> None
      | Some (Inl (e, ts)) \<Rightarrow> Some (ts, Some e)
      | Some (Inr s1) \<Rightarrow>
          (case drain_base keyfunc s1 of
             Inl (e, ts) \<Rightarrow> Some (ts, Some e)
           | Inr s2 \<Rightarrow>
               if final_asserts3 s2 then Some (emitted3 s2, None)
               else Some (emitted3 s2, Some AssertionError)))"

section \<open>Two-way set matcher\<close>

text \<open>The state of one run of \<^verbatim>\<open>SetMatcher2.match\<close>.\<close>

type_synonym 'u pair = "'u option \<times> 'u option"

record ('k, 'u) state2 =
  item_map2 :: "('k \<times> 'u Item2) list"
  ow :: "'u Walker"
  nw :: "'u Walker"
  emitted2 :: "'u pair list"

text \<open>The local function \<^verbatim>\<open>not_old\<close>.\<close>

definition not_old ::
  "('u \<Rightarrow> 'k) \<Rightarrow> ('u \<Rightarrow> bool) \<Rightarrow> ('k \<times> 'u Item2) list \<Rightarrow> 'u \<Rightarrow> error + bool" where
  "not_old keyfunc deletedfunc item_map unit =
     (case item_of keyfunc item_map unit of
        Inl e \<Rightarrow> Inl e
      | Inr i \<Rightarrow>
          (case i_old i of
             None \<Rightarrow> Inr True
           | Some l \<Rightarrow>
               if deletedfunc l then
                 (case i_new i of None \<Rightarrow> Inl TypeError | Some r \<Rightarrow> Inr (\<not> deletedfunc r))
               else Inr False))"

definition emit2 :: "('u \<Rightarrow> 'k) \<Rightarrow> ('k, 'u) state2 \<Rightarrow> 'u \<Rightarrow> error + ('k, 'u) state2" where
  "emit2 keyfunc s unit =
     (case item_of keyfunc (item_map2 s) unit of
        Inl e \<Rightarrow> Inl e
      | Inr i \<Rightarrow>
          if i_done i then Inl AssertionError
          else Inr (s\<lparr>emitted2 := emitted2 s @ [(i_old i, i_new i)],
                      item_map2 := AList.update (keyfunc unit) (i\<lparr>i_done := True\<rparr>) (item_map2 s)\<rparr>))"

text \<open>The condition of the first branch: \<^verbatim>\<open>nw.valid() and not_old(nw.get())\<close>.\<close>

definition inject_new ::
  "('u \<Rightarrow> 'k) \<Rightarrow> ('u \<Rightarrow> bool) \<Rightarrow> ('k, 'u) state2 \<Rightarrow> error + bool" where
  "inject_new keyfunc deletedfunc s =
     (if w_valid (nw s) then
        (case walker_get (nw s) of
           Inl e \<Rightarrow> Inl e
         | Inr u \<Rightarrow> not_old keyfunc deletedfunc (item_map2 s) u)
      else Inr False)"

definition choose2 ::
  "('u \<Rightarrow> 'k) \<Rightarrow> ('u \<Rightarrow> bool) \<Rightarrow> ('k, 'u) state2 \<Rightarrow> error + ('k, 'u) state2" where
  "choose2 keyfunc deletedfunc s =
     (case inject_new keyfunc deletedfunc s of
        Inl e \<Rightarrow> Inl e
      | Inr True \<Rightarrow>
          (case walker_get (nw s) of
             Inl e \<Rightarrow> Inl e
           | Inr u \<Rightarrow>
               (case emit2 keyfunc s u of
                  Inl e \<Rightarrow> Inl e
                | Inr s' \<Rightarrow> Inr (s'\<lparr>nw := walker_next (nw s')\<rparr>)))
      | Inr False \<Rightarrow>
          if w_valid (ow s) then
            (case walker_get (ow s) of
               Inl e \<Rightarrow> Inl e
             | Inr u \<Rightarrow>
                 (case emit2 keyfunc s u of
                    Inl e \<Rightarrow> Inl e
                  | Inr s' \<Rightarrow> Inr (s'\<lparr>ow := walker_next (ow s')\<rparr>)))
          else Inr s)"

type_synonym 'u failure2 = "error \<times> 'u pair list"

definition loop_body2 ::
  "('u \<Rightarrow> 'k) \<Rightarrow> ('u \<Rightarrow> bool) \<Rightarrow> ('k, 'u) state2 \<Rightarrow> 'u failure2 + ('k, 'u) state2" where
  "loop_body2 keyfunc deletedfunc s =
     (case choose2 keyfunc deletedfunc s of
        Inl e \<Rightarrow> Inl (e, emitted2 s)
      | Inr s1 \<Rightarrow>
          (case skip_done keyfunc (item_map2 s1) (nw s1) of
             Inl e \<Rightarrow> Inl (e, emitted2 s1)
           | Inr nw' \<Rightarrow>
               (case skip_done keyfunc (item_map2 s1) (ow s1) of
                  Inl e \<Rightarrow> Inl (e, emitted2 s1)
                | Inr ow' \<Rightarrow> Inr (s1\<lparr>nw := nw', ow := ow'\<rparr>))))"

text \<open>\<^verbatim>\<open>while ow.valid() and nw.valid():\<close>, with the conjunction of the source.\<close>

partial_function (option) main_loop2 ::
  "('u \<Rightarrow> 'k) \<Rightarrow> ('u \<Rightarrow> bool) \<Rightarrow> ('k, 'u) state2 \<Rightarrow> ('u failure2 + ('k, 'u) state2) option" where
  "main_loop2 keyfunc deletedfunc s =
     (if w_valid (ow s) \<and> w_valid (nw s) then
        (case loop_body2 keyfunc deletedfunc s of
           Inl f \<Rightarrow> Some (Inl f)
         | Inr s' \<Rightarrow> main_loop2 keyfunc deletedfunc s')
      else Some (Inr s))"

declare main_loop2.simps [code]

text \<open>The three assertions that end \<^verbatim>\<open>SetMatcher2.match\<close>.\<close>

definition final_asserts2 :: "('k, 'u) state2 \<Rightarrow> bool" where
  "final_asserts2 s \<longleftrightarrow>
     \<not> w_valid (ow s) \<and> \<not> w_valid (nw s)
     \<and> [i \<leftarrow> map snd (item_map2 s). \<not> i_done i] = []"

definition init2 :: "('u \<Rightarrow> 'k) \<Rightarrow> 'u list \<Rightarrow> 'u list \<Rightarrow> ('k, 'u) state2" where
  "init2 keyfunc old new =
     \<lparr>item_map2 =
        fill_item_map keyfunc new_Item2 (\<lambda>u i. i\<lparr>i_new := Some u\<rparr>) new
          (fill_item_map keyfunc new_Item2 (\<lambda>u i. i\<lparr>i_old := Some u\<rparr>) old []),
      ow = Walker_init old, nw = Walker_init new,
      emitted2 = []\<rparr>"

text \<open>\<^verbatim>\<open>SetMatcher2.match\<close>, run to its end; the result reads as that of \<open>match3\<close>.\<close>

definition match2 ::
  "('u \<Rightarrow> 'k) \<Rightarrow> ('u \<Rightarrow> bool) \<Rightarrow> 'u list \<Rightarrow> 'u list \<Rightarrow> ('u pair list \<times> error option) option" where
  "match2 keyfunc deletedfunc old new =
     (case main_loop2 keyfunc deletedfunc (init2 keyfunc old new) of
        None \<Rightarrow> None
      | Some (Inl (e, ps)) \<Rightarrow> Some (ps, Some e)
      | Some (Inr s1) \<Rightarrow>
          if final_asserts2 s1 then Some (emitted2 s1, None)
          else Some (emitted2 s1, Some AssertionError))"

section \<open>Timestamps of the header\<close>

text \<open>
  The regular expression \<^verbatim>\<open>_time_pattern\<close>:
  \<^verbatim>\<open>([0-9]{4})-([0-9]{1,2})-([0-9]{1,2})\s+([0-9]{1,2}):([0-9]{1,2})(?::[0-9]{1,2})?\s*([+-][0-9]{2})([0-9]{2})\<close>,
  applied with \<^verbatim>\<open>match\<close>: anchored at the start of the string, not at its end.
  Every repetition of the pattern is followed by a character class disjoint from the one
  it repeats, so the greedy choice is the only one that can succeed and the matcher
  below never has to backtrack.
\<close>

definition is_digit :: "char \<Rightarrow> bool" where
  "is_digit c \<longleftrightarrow> c \<in> set ''0123456789''"

text \<open>The class \<^verbatim>\<open>\s\<close> of byte strings: space, tab, newline, return, form feed, vertical tab.\<close>

definition is_space :: "char \<Rightarrow> bool" where
  "is_space c \<longleftrightarrow> c \<in> set [CHR '' '', CHR 0x09, CHR 0x0A, CHR 0x0D, CHR 0x0C, CHR 0x0B]"

text \<open>\<^verbatim>\<open>[0-9]{n}\<close>: exactly \<open>n\<close> digits.\<close>

fun digits_exact :: "nat \<Rightarrow> string \<Rightarrow> (string \<times> string) option" where
  "digits_exact 0 s = Some ([], s)"
| "digits_exact (Suc n) [] = None"
| "digits_exact (Suc n) (c # s) =
     (if is_digit c then
        (case digits_exact n s of None \<Rightarrow> None | Some (ds, r) \<Rightarrow> Some (c # ds, r))
      else None)"

text \<open>\<^verbatim>\<open>[0-9]{1,2}\<close>: one digit, or two when a second one follows.\<close>

fun digits_1_2 :: "string \<Rightarrow> (string \<times> string) option" where
  "digits_1_2 [] = None"
| "digits_1_2 [c] = (if is_digit c then Some ([c], []) else None)"
| "digits_1_2 (c # d # s) =
     (if is_digit c then (if is_digit d then Some ([c, d], s) else Some ([c], d # s))
      else None)"

text \<open>A literal character.\<close>

fun lit :: "char \<Rightarrow> string \<Rightarrow> string option" where
  "lit x [] = None"
| "lit x (c # s) = (if c = x then Some s else None)"

text \<open>\<^verbatim>\<open>\s+\<close> and \<^verbatim>\<open>\s*\<close>.\<close>

definition spaces_star :: "string \<Rightarrow> string" where
  "spaces_star s = dropWhile is_space s"

fun spaces_plus :: "string \<Rightarrow> string option" where
  "spaces_plus [] = None"
| "spaces_plus (c # s) = (if is_space c then Some (spaces_star s) else None)"

text \<open>The optional group of the seconds, \<^verbatim>\<open>(?::[0-9]{1,2})?\<close>.\<close>

definition opt_seconds :: "string \<Rightarrow> string" where
  "opt_seconds s =
     (case lit CHR '':'' s of
        None \<Rightarrow> s
      | Some s1 \<Rightarrow> (case digits_1_2 s1 of None \<Rightarrow> s | Some (ds, s2) \<Rightarrow> s2))"

text \<open>\<^verbatim>\<open>([+-][0-9]{2})\<close>: the sign together with two digits, as one group.\<close>

fun sign_digits :: "string \<Rightarrow> (string \<times> string) option" where
  "sign_digits [] = None"
| "sign_digits (c # s) =
     (if c = CHR ''+'' \<or> c = CHR ''-'' then
        (case digits_exact 2 s of None \<Rightarrow> None | Some (ds, r) \<Rightarrow> Some (c # ds, r))
      else None)"

text \<open>The seven groups of a match.\<close>

record time_groups =
  group1 :: string
  group2 :: string
  group3 :: string
  group4 :: string
  group5 :: string
  group6 :: string
  group7 :: string

definition time_pattern_match :: "string \<Rightarrow> time_groups option" where
  "time_pattern_match s0 =
     Option.bind (digits_exact 4 s0) (\<lambda>(g1, s1).
     Option.bind (lit CHR ''-'' s1) (\<lambda>s2.
     Option.bind (digits_1_2 s2) (\<lambda>(g2, s3).
     Option.bind (lit CHR ''-'' s3) (\<lambda>s4.
     Option.bind (digits_1_2 s4) (\<lambda>(g3, s5).
     Option.bind (spaces_plus s5) (\<lambda>s6.
     Option.bind (digits_1_2 s6) (\<lambda>(g4, s7).
     Option.bind (lit CHR '':'' s7) (\<lambda>s8.
     Option.bind (digits_1_2 s8) (\<lambda>(g5, s9).
     Option.bind (sign_digits (spaces_star (opt_seconds s9))) (\<lambda>(g6, s10).
     Option.bind (digits_exact 2 s10) (\<lambda>(g7, s11).
       Some \<lparr>group1 = g1, group2 = g2, group3 = g3, group4 = g4, group5 = g5,
             group6 = g6, group7 = g7\<rparr>)))))))))))"

text \<open>
  \<^verbatim>\<open>int(...)\<close> on a group of the match: decimal digits, after an optional sign.
  (The groups of a match have this form, so the \<^verbatim>\<open>ValueError\<close> of \<^verbatim>\<open>int\<close>
  cannot occur.)
\<close>

definition digit_value :: "char \<Rightarrow> int" where
  "digit_value c = int (of_char c) - 48"

definition int_of_digits :: "string \<Rightarrow> int" where
  "int_of_digits ds = foldl (\<lambda>n c. 10 * n + digit_value c) 0 ds"

fun py_int :: "string \<Rightarrow> int" where
  "py_int [] = 0"
| "py_int (c # s) =
     (if c = CHR ''+'' then int_of_digits s
      else if c = CHR ''-'' then - int_of_digits s
      else int_of_digits (c # s))"

text \<open>
  \<^verbatim>\<open>_PoFileDiff._get_time\<close>. The argument is what \<^verbatim>\<open>dict.get\<close> returned: a string,
  or \<^verbatim>\<open>None\<close> for an absent field, on which \<^verbatim>\<open>_time_pattern.match\<close> raises
  \<^verbatim>\<open>TypeError\<close>. The library function \<^verbatim>\<open>time.mktime\<close> and the constant
  \<^verbatim>\<open>time.timezone\<close> are parameters; \<open>mktime\<close> takes the nine fields of the time
  tuple. Seconds are integers (the float that \<^verbatim>\<open>mktime\<close> returns has an integral
  value). The source adds group 6 (the sign and the hours of the offset) twice, once
  times 3600 and once times 60 or -60, and does not read group 7. The factor is looked
  up in the dictionary \<^verbatim>\<open>{'+': 60, '-': -60}\<close> under the first character of group 6.
\<close>

definition sign_factor :: "string \<Rightarrow> error + int" where
  "sign_factor g =
     (case g of
        [] \<Rightarrow> Inl IndexError
      | c # cs \<Rightarrow>
          if c = CHR ''+'' then Inr 60 else if c = CHR ''-'' then Inr (- 60) else Inl KeyError)"

type_synonym time_tuple = "int \<times> int \<times> int \<times> int \<times> int \<times> int \<times> int \<times> int \<times> int"

definition get_time :: "(time_tuple \<Rightarrow> int) \<Rightarrow> int \<Rightarrow> string option \<Rightarrow> error + int" where
  "get_time mktime timezone timestr =
     (case timestr of
        None \<Rightarrow> Inl TypeError
      | Some str \<Rightarrow>
          (case time_pattern_match str of
             Some m \<Rightarrow>
               (let t = mktime (py_int (group1 m), py_int (group2 m), py_int (group3 m),
                                py_int (group4 m), py_int (group5 m), 0, 0, 0, 0);
                    t = t + timezone
                in case sign_factor (group6 m) of
                     Inl e \<Rightarrow> Inl e
                   | Inr f \<Rightarrow> Inr (t + py_int (group6 m) * 3600 + py_int (group6 m) * f))
           | None \<Rightarrow> Inr 0))"

text \<open>
  The local function \<^verbatim>\<open>newer\<close> of \<^verbatim>\<open>_merge_header\<close>. A parsed header is a
  dictionary, here an association list; \<^verbatim>\<open>left.get(attribute)\<close> is \<open>map_of\<close>.
\<close>

definition newer ::
  "(time_tuple \<Rightarrow> int) \<Rightarrow> int \<Rightarrow> (string \<times> string) list \<Rightarrow> (string \<times> string) list
     \<Rightarrow> string \<Rightarrow> error + bool" where
  "newer mktime timezone left right attribute =
     (case get_time mktime timezone (map_of left attribute) of
        Inl e \<Rightarrow> Inl e
      | Inr t_left \<Rightarrow>
          (case get_time mktime timezone (map_of right attribute) of
             Inl e \<Rightarrow> Inl e
           | Inr t_right \<Rightarrow> Inr (t_left \<ge> t_right)))"

text \<open>
  The offset that the specification asks for, by its words: the sign times
  (hours times 3600 plus minutes times 60), subtracted from the local time.
\<close>

definition spec_utc_instant :: "int \<Rightarrow> int \<Rightarrow> int \<Rightarrow> int \<Rightarrow> int" where
  "spec_utc_instant local_seconds sign hh mm = local_seconds - sign * (hh * 3600 + mm * 60)"

section \<open>Translation units\<close>

text \<open>
  Modelled from the spec: the translation unit and its store, which are classes of the
  translate toolkit (\<^verbatim>\<open>translate.storage.pypo\<close>, \<^verbatim>\<open>translate.misc.multistring\<close>)
  and not part of the sources. The record has the fields of the unit contract of the
  specification.

  A target is a multi-string: a main string and the strings of the further plural forms.
  Its \<^verbatim>\<open>strings\<close> attribute is the list of all of them, and its truth value is that
  of the main string.
\<close>

datatype multistring = MultiString (mainstring: string) (alternatives: "string list")

definition strings :: "multistring \<Rightarrow> string list" where
  "strings t = mainstring t # alternatives t"

definition plain :: "string \<Rightarrow> multistring" where
  "plain str = MultiString str []"

text \<open>
  The store that a unit points back to (\<^verbatim>\<open>unit._store\<close>): its \<^verbatim>\<open>filename\<close>
  attribute, which may be absent, and the dictionary that \<^verbatim>\<open>parseheader()\<close> returns.
\<close>

record store =
  s_filename :: "string option"
  s_header :: "(string \<times> string) list"

record pounit =
  u_source :: string
  u_context :: string
  u_plural :: bool
  u_target :: multistring
  u_fuzzy :: bool
  u_obsolete :: bool
  u_header :: bool
  u_locations :: "string list"
  u_developer_notes :: "string list"
  u_translator_notes :: "string list"
  u_typecomments :: "string list"
  u_prev_msgctxt :: string
  u_prev_msgid :: string
  u_prev_msgid_plural :: string
  u_store :: "store option"

text \<open>\<^verbatim>\<open>getid\<close>: the key of a unit is its context and its source.\<close>

definition getid :: "pounit \<Rightarrow> string \<times> string" where
  "getid u = (u_context u, u_source u)"

definition isobsolete :: "pounit \<Rightarrow> bool" where
  "isobsolete u = u_obsolete u"

definition isheader :: "pounit \<Rightarrow> bool" where
  "isheader u = u_header u"

definition isfuzzy :: "pounit \<Rightarrow> bool" where
  "isfuzzy u = u_fuzzy u"

definition hasplural :: "pounit \<Rightarrow> bool" where
  "hasplural u = u_plural u"

definition makeobsolete :: "pounit \<Rightarrow> pounit" where
  "makeobsolete u = u\<lparr>u_obsolete := True\<rparr>"

definition markfuzzy :: "bool \<Rightarrow> pounit \<Rightarrow> pounit" where
  "markfuzzy present u = u\<lparr>u_fuzzy := present\<rparr>"

text \<open>\<^verbatim>\<open>isblank\<close>: the target is empty or consists of white space.\<close>

definition isblank :: "pounit \<Rightarrow> bool" where
  "isblank u \<longleftrightarrow> (\<forall>str \<in> set (strings (u_target u)). \<forall>c \<in> set str. is_space c)"

text \<open>
  \<^verbatim>\<open>addnote(text)\<close> with the default origin: a translator note is appended.
\<close>

definition addnote :: "string \<Rightarrow> pounit \<Rightarrow> pounit" where
  "addnote note u = u\<lparr>u_translator_notes := u_translator_notes u @ [note]\<rparr>"

text \<open>A unit as its class constructs it, with no content.\<close>

definition fresh_unit :: pounit where
  "fresh_unit =
     \<lparr>u_source = [], u_context = [], u_plural = False, u_target = plain [],
      u_fuzzy = False, u_obsolete = False, u_header = False,
      u_locations = [], u_developer_notes = [], u_translator_notes = [],
      u_typecomments = [], u_prev_msgctxt = [], u_prev_msgid = [],
      u_prev_msgid_plural = [], u_store = None\<rparr>"

section \<open>Merging one unit\<close>

text \<open>
  \<^verbatim>\<open>DiffUtils.clone_unit\<close> is \<^verbatim>\<open>deepcopy\<close>: on values it is the identity, and
  \<^verbatim>\<open>deepcopy(None)\<close> is \<^verbatim>\<open>None\<close>.
\<close>

definition clone_unit :: "pounit option \<Rightarrow> pounit option" where
  "clone_unit unit = unit"

text \<open>
  \<^verbatim>\<open>_PoFileDiff.empty_unit\<close>: a fresh unit with the source and the context of the
  template. Whether a unit has plural forms is a property of its source.
\<close>

definition empty_unit :: "pounit \<Rightarrow> pounit" where
  "empty_unit template =
     fresh_unit\<lparr>u_source := u_source template, u_plural := u_plural template,
                u_context := u_context template\<rparr>"

text \<open>
  \<^verbatim>\<open>DiffUtils.merge_unit\<close>. The method \<^verbatim>\<open>_merge_unit\<close> is abstract in
  \<^verbatim>\<open>DiffUtils\<close> and is the parameter \<open>merge_unit'\<close>; it returns the merged unit and
  the number of conflicts, may raise, and \<open>None\<close> is a call that does not return.
  \<^verbatim>\<open>u.makeobsolete()\<close> on \<^verbatim>\<open>None\<close> raises \<^verbatim>\<open>AttributeError\<close>.
\<close>

type_synonym merge_unit_method =
  "pounit \<Rightarrow> pounit \<Rightarrow> pounit \<Rightarrow> (error + pounit \<times> nat) option"

definition merge_unit ::
  "merge_unit_method \<Rightarrow> pounit option \<Rightarrow> pounit option \<Rightarrow> pounit option
     \<Rightarrow> (error + pounit option \<times> nat) option" where
  "merge_unit merge_unit' base local remote =
     (if \<not> (base \<noteq> None \<or> local \<noteq> None \<or> remote \<noteq> None) then Some (Inl AssertionError)
      else
        (case base of
           None \<Rightarrow>
             (case remote of
                None \<Rightarrow> Some (Inr (clone_unit local, 0))
              | Some r \<Rightarrow>
                  (case local of
                     None \<Rightarrow> Some (Inr (clone_unit remote, 0))
                   | Some l \<Rightarrow>
                       (case merge_unit' (empty_unit l) l r of
                          None \<Rightarrow> None
                        | Some (Inl e) \<Rightarrow> Some (Inl e)
                        | Some (Inr (u, c)) \<Rightarrow> Some (Inr (Some u, c)))))
         | Some b \<Rightarrow>
             (case remote of
                None \<Rightarrow>
                  (let u = clone_unit local
                   in if \<not> isobsolete b then
                        (case u of
                           None \<Rightarrow> Some (Inl AttributeError)
                         | Some u' \<Rightarrow> Some (Inr (Some (makeobsolete u'), 0)))
                      else Some (Inr (u, 0)))
              | Some r \<Rightarrow>
                  (case local of
                     None \<Rightarrow>
                       (let u = clone_unit remote
                        in if \<not> isobsolete b then
                             (case u of
                                None \<Rightarrow> Some (Inl AttributeError)
                              | Some u' \<Rightarrow> Some (Inr (Some (makeobsolete u'), 0)))
                           else Some (Inr (u, 0)))
                   | Some l \<Rightarrow>
                       (case merge_unit' b l r of
                          None \<Rightarrow> None
                        | Some (Inl e) \<Rightarrow> Some (Inl e)
                        | Some (Inr (u, c)) \<Rightarrow> Some (Inr (Some u, c)))))))"

section \<open>Merging lists as sets\<close>

text \<open>
  \<^verbatim>\<open>DiffUtils.merge_list\<close>: the three-way matcher with the identity as key function
  and no deleted units, \<open>merge_simple\<close> on every triple, and the results that are not
  \<^verbatim>\<open>None\<close>. The generator expression is consumed triple by triple, so an error of
  \<open>merge_simple\<close> comes before an error that the matcher raises at its end.
\<close>

fun merge_each :: "'a triple list \<Rightarrow> error + 'a option list" where
  "merge_each [] = Inr []"
| "merge_each ((b, l, r) # ts) =
     (case merge_simple b l r of
        Inl e \<Rightarrow> Inl e
      | Inr o1 \<Rightarrow> (case merge_each ts of Inl e \<Rightarrow> Inl e | Inr os \<Rightarrow> Inr (o1 # os)))"

definition merge_list :: "'a list \<Rightarrow> 'a list \<Rightarrow> 'a list \<Rightarrow> (error + 'a list) option" where
  "merge_list base local remote =
     (case match3 (\<lambda>x. x) (\<lambda>x. False) base local remote of
        None \<Rightarrow> None
      | Some (ts, raised) \<Rightarrow>
          (case merge_each ts of
             Inl e \<Rightarrow> Some (Inl e)
           | Inr os \<Rightarrow>
               (case raised of
                  Some e \<Rightarrow> Some (Inl e)
                | None \<Rightarrow> Some (Inr (map the [o1 \<leftarrow> os. o1 \<noteq> None])))))"

section \<open>String formatting\<close>

text \<open>
  The operator \<^verbatim>\<open>%\<close> of Python on a format string and a tuple of strings, for the
  two conversion specifications that the templates of the source use: \<^verbatim>\<open>%s\<close> takes
  the next argument and \<^verbatim>\<open>%%\<close> is a percent sign. Too few arguments and arguments
  left over raise \<^verbatim>\<open>TypeError\<close>, a percent sign at the end of the format raises
  \<^verbatim>\<open>ValueError\<close>. Any other conversion specification is outside the model.
\<close>

fun py_format :: "string \<Rightarrow> string list \<Rightarrow> error + string" where
  "py_format [] [] = Inr []"
| "py_format [] (a # args) = Inl TypeError"
| "py_format (c # fmt) args =
     (if c \<noteq> CHR ''%'' then
        (case py_format fmt args of Inl e \<Rightarrow> Inl e | Inr str \<Rightarrow> Inr (c # str))
      else
        (case fmt of
           [] \<Rightarrow> Inl ValueError
         | d # fmt' \<Rightarrow>
             if d = CHR ''%'' then
               (case py_format fmt' args of Inl e \<Rightarrow> Inl e | Inr str \<Rightarrow> Inr (CHR ''%'' # str))
             else if d = CHR ''s'' then
               (case args of
                  [] \<Rightarrow> Inl TypeError
                | a # args' \<Rightarrow>
                    (case py_format fmt' args' of Inl e \<Rightarrow> Inl e | Inr str \<Rightarrow> Inr (a @ str)))
             else Inl Unmodelled))"

section \<open>Merging the header\<close>

text \<open>\<^verbatim>\<open>_template_headers\<close>.\<close>

definition template_headers :: "string set" where
  "template_headers =
     {''Project-Id-Version'', ''Report-Msgid-Bugs-To'', ''POT-Creation-Date'', ''Language-Team''}"

text \<open>
  \<^verbatim>\<open>getattr(unit._store, 'filename', default)\<close>: the default also when the unit has
  no store.
\<close>

definition store_filename :: "pounit \<Rightarrow> string \<Rightarrow> string" where
  "store_filename u dflt =
     (case u_store u of
        None \<Rightarrow> dflt
      | Some st \<Rightarrow> (case s_filename st of None \<Rightarrow> dflt | Some name \<Rightarrow> name))"

text \<open>\<^verbatim>\<open>d.get(key, default)\<close> on a dictionary of strings.\<close>

definition get_or :: "(string \<times> string) list \<Rightarrow> string \<Rightarrow> string \<Rightarrow> string" where
  "get_or d key dflt = (case map_of d key of None \<Rightarrow> dflt | Some v \<Rightarrow> v)"

text \<open>
  The note of a header conflict,
  \<^verbatim>\<open>'(conflict) %(file)s (%(project)s): %(key)s: %(value)s'\<close>, and the line
  \<^verbatim>\<open>'%s: %s\n'\<close> that is appended to the target when the value is not \<^verbatim>\<open>None\<close>.
  Both formats are literals of the source with string arguments.
\<close>

definition conflict_note :: "string \<Rightarrow> string \<Rightarrow> string \<Rightarrow> string \<Rightarrow> string" where
  "conflict_note file project key val =
     ''(conflict) '' @ file @ '' ('' @ project @ ''): '' @ key @ '': '' @ val"

definition header_line :: "string \<Rightarrow> string \<Rightarrow> string" where
  "header_line key val = key @ '': '' @ val @ [CHR 0x0A]"

definition append_header_line :: "string \<Rightarrow> string option \<Rightarrow> pounit \<Rightarrow> pounit" where
  "append_header_line key res out =
     (case res of
        None \<Rightarrow> out
      | Some v \<Rightarrow> out\<lparr>u_target := plain (mainstring (u_target out) @ header_line key v)\<rparr>)"

text \<open>
  The body of the loop over the merged keys in \<^verbatim>\<open>_PoFileDiff._merge_header\<close>. The
  state of the loop is the output unit and the counter \<^verbatim>\<open>c\<close>.
\<close>

definition merge_header_key ::
  "(time_tuple \<Rightarrow> int) \<Rightarrow> int \<Rightarrow> (string \<times> string) list \<Rightarrow> (string \<times> string) list
     \<Rightarrow> (string \<times> string) list \<Rightarrow> pounit \<Rightarrow> pounit \<Rightarrow> string \<Rightarrow> pounit \<times> nat
     \<Rightarrow> error + pounit \<times> nat" where
  "merge_header_key mktime timezone base_dict local_dict remote_dict local remote key oc =
     (let out = fst oc; c = snd oc;
          b = map_of base_dict key;
          l = map_of local_dict key;
          r = map_of remote_dict key
      in if b = l then Inr (append_header_line key r out, c)
         else if b = r \<or> l = r then Inr (append_header_line key l out, c)
         else
           (case newer mktime timezone local_dict remote_dict
                   (if key \<in> template_headers then ''POT-Creation-Date''
                    else ''PO-Revision-Date'') of
              Inl e \<Rightarrow> Inl e
            | Inr use_local \<Rightarrow>
                (let used = (if use_local then local_dict else remote_dict);
                     other = (if use_local then remote_dict else local_dict);
                     ofile = (if use_local then remote else local);
                     res = map_of used key;
                     out1 = addnote
                       (conflict_note
                          (store_filename ofile (if use_local then ''remote'' else ''local''))
                          (get_or other ''Project-Id-Version'' ''???'')
                          key
                          (get_or other key ''<unset>''))
                       out
                 in Inr (append_header_line key res out1, 1))))"

fun merge_header_keys ::
  "(time_tuple \<Rightarrow> int) \<Rightarrow> int \<Rightarrow> (string \<times> string) list \<Rightarrow> (string \<times> string) list
     \<Rightarrow> (string \<times> string) list \<Rightarrow> pounit \<Rightarrow> pounit \<Rightarrow> string list \<Rightarrow> pounit \<times> nat
     \<Rightarrow> error + pounit \<times> nat" where
  "merge_header_keys mktime timezone bd ld rd local remote [] oc = Inr oc"
| "merge_header_keys mktime timezone bd ld rd local remote (key # keys) oc =
     (case merge_header_key mktime timezone bd ld rd local remote key oc of
        Inl e \<Rightarrow> Inl e
      | Inr oc' \<Rightarrow> merge_header_keys mktime timezone bd ld rd local remote keys oc')"

text \<open>
  \<^verbatim>\<open>_PoFileDiff._merge_header\<close>. The library function
  \<^verbatim>\<open>poheader.parseheaderstring\<close> is the parameter \<open>parse\<close>: it returns the
  dictionary of a header, whose keys are pairwise distinct and in the order of the
  header. The result is the output unit and the conflict count.
\<close>

definition merge_header ::
  "(string \<Rightarrow> (string \<times> string) list) \<Rightarrow> (time_tuple \<Rightarrow> int) \<Rightarrow> int
     \<Rightarrow> pounit \<Rightarrow> pounit \<Rightarrow> pounit \<Rightarrow> pounit \<Rightarrow> (error + pounit \<times> nat) option" where
  "merge_header parse mktime timezone out base local remote =
     (let base_dict = parse (mainstring (u_target base));
          local_dict = parse (mainstring (u_target local));
          remote_dict = parse (mainstring (u_target remote));
          out0 = out\<lparr>u_target := plain []\<rparr>
      in case merge_list (map fst base_dict) (map fst local_dict) (map fst remote_dict) of
           None \<Rightarrow> None
         | Some (Inl e) \<Rightarrow> Some (Inl e)
         | Some (Inr allkeys) \<Rightarrow>
             (case merge_header_keys mktime timezone base_dict local_dict remote_dict
                     local remote allkeys (out0, 0) of
                Inl e \<Rightarrow> Some (Inl e)
              | Inr (out1, c) \<Rightarrow>
                  (case merge_simple (isfuzzy base) (isfuzzy local) (isfuzzy remote) of
                     Inl e \<Rightarrow> Some (Inl e)
                   | Inr f \<Rightarrow> Some (Inr (markfuzzy f out1, c)))))"

text \<open>
  Modelled from the spec: the parser of a header, \<^verbatim>\<open>poheader.parseheaderstring\<close> of the
  translate toolkit, for the instances of the theorems below. A header is a block of
  lines \<^verbatim>\<open>Key: Value\<close>; the dictionary has the keys in the order of the lines, and a
  line without a colon is skipped.
\<close>

fun split_lines :: "string \<Rightarrow> string list" where
  "split_lines [] = [[]]"
| "split_lines (c # str) =
     (if c = CHR 0x0A then [] # split_lines str
      else (case split_lines str of [] \<Rightarrow> [[c]] | ln # lns \<Rightarrow> (c # ln) # lns))"

definition strip :: "string \<Rightarrow> string" where
  "strip str = rev (dropWhile is_space (rev (dropWhile is_space str)))"

definition parse_header_line :: "string \<Rightarrow> (string \<times> string) option" where
  "parse_header_line ln =
     (if CHR '':'' \<in> set ln
      then Some (takeWhile (\<lambda>c. c \<noteq> CHR '':'') ln,
                 strip (drop 1 (dropWhile (\<lambda>c. c \<noteq> CHR '':'') ln)))
      else None)"

definition parseheaderstring :: "string \<Rightarrow> (string \<times> string) list" where
  "parseheaderstring str =
     foldl (\<lambda>d ln. case parse_header_line ln of None \<Rightarrow> d | Some (k, v) \<Rightarrow> AList.update k v d)
       [] (split_lines str)"

text \<open>
  Modelled from the spec: \<^verbatim>\<open>time.mktime\<close> in a process whose zone is UTC (so that
  \<^verbatim>\<open>time.timezone\<close> is 0), for the instances of the theorems below: the seconds
  since the epoch of a civil date and time, by the count of days of the Gregorian
  calendar.
\<close>

definition days_from_civil :: "int \<Rightarrow> int \<Rightarrow> int \<Rightarrow> int" where
  "days_from_civil y m d =
     (let y1 = (if m \<le> 2 then y - 1 else y);
          era = y1 div 400;
          yoe = y1 - era * 400;
          doy = (153 * (if m > 2 then m - 3 else m + 9) + 2) div 5 + d - 1;
          doe = yoe * 365 + yoe div 4 - yoe div 100 + doy
      in era * 146097 + doe - 719468)"

fun utc_mktime :: "time_tuple \<Rightarrow> int" where
  "utc_mktime (y, mo, d, h, mi, sec, wd, yd, dst) =
     ((days_from_civil y mo d * 24 + h) * 60 + mi) * 60 + sec"

section \<open>Merging the translation\<close>

text \<open>\<^verbatim>\<open>_PoFileDiff._equal_translation\<close>.\<close>

definition equal_translation :: "pounit \<Rightarrow> pounit \<Rightarrow> bool" where
  "equal_translation left right \<longleftrightarrow>
     u_target left = u_target right
     \<and> (isfuzzy left = isfuzzy right \<or> \<not> (mainstring (u_target left) \<noteq> []))"

text \<open>The local function \<^verbatim>\<open>set_translation_from\<close> of \<^verbatim>\<open>_merge_target\<close>.\<close>

definition set_translation_from :: "pounit \<Rightarrow> pounit \<Rightarrow> pounit" where
  "set_translation_from unit out =
     (let out1 = out\<lparr>u_target := u_target unit\<rparr>;
          out2 = (if u_prev_msgid unit \<noteq> [] then
                    out1\<lparr>u_prev_msgctxt := u_prev_msgctxt unit,
                         u_prev_msgid := u_prev_msgid unit,
                         u_prev_msgid_plural := u_prev_msgid_plural unit\<rparr>
                  else out1)
      in markfuzzy (isfuzzy unit) out2)"

text \<open>The quality of a side: \<^verbatim>\<open>0 if u.isblank() else 1 if u.isfuzzy() else 2\<close>.\<close>

definition quality :: "pounit \<Rightarrow> nat" where
  "quality u = (if isblank u then 0 else if isfuzzy u then 1 else 2)"

text \<open>
  \<^verbatim>\<open>unit._store.parseheader().get("Project-Id-Version", u"???")\<close>: an attribute error
  for a unit without a store.
\<close>

definition store_project :: "pounit \<Rightarrow> error + string" where
  "store_project u =
     (case u_store u of
        None \<Rightarrow> Inl AttributeError
      | Some st \<Rightarrow> Inr (get_or (s_header st) ''Project-Id-Version'' ''???''))"

text \<open>
  The template of the conflict marker. The source formats a literal with the two file
  names and the two project versions, in which \<^verbatim>\<open>%%s\<close> stands for the two
  translations, and uses the result as the format of a second formatting.
\<close>

definition marker_literal :: string where
  "marker_literal =
     ''#-#-#-#-#  %s (%s)  #-#-#-#-#'' @ [CHR 0x0A] @ ''%%s'' @ [CHR 0x0A]
     @ ''#-#-#-#-#  %s (%s)  #-#-#-#-#'' @ [CHR 0x0A] @ ''%%s'' @ [CHR 0x0A]"

definition marker_template :: "pounit \<Rightarrow> pounit \<Rightarrow> error + string" where
  "marker_template local remote =
     (case store_project local of
        Inl e \<Rightarrow> Inl e
      | Inr lproject \<Rightarrow>
          (case store_project remote of
             Inl e \<Rightarrow> Inl e
           | Inr rproject \<Rightarrow>
               py_format marker_literal
                 [store_filename local ''local'', lproject,
                  store_filename remote ''remote'', rproject]))"

text \<open>
  The two loops \<^verbatim>\<open>while len(ls) < len(rs): ls.append(u"")\<close> and its mirror image.
\<close>

definition pad_to :: "nat \<Rightarrow> string list \<Rightarrow> string list" where
  "pad_to n xs = xs @ replicate (n - length xs) []"

text \<open>\<^verbatim>\<open>[tmpl % (l, r) for l, r in zip(ls, rs)]\<close>.\<close>

fun format_all :: "string \<Rightarrow> (string \<times> string) list \<Rightarrow> error + string list" where
  "format_all tmpl [] = Inr []"
| "format_all tmpl ((l, r) # lrs) =
     (case py_format tmpl [l, r] of
        Inl e \<Rightarrow> Inl e
      | Inr str \<Rightarrow> (case format_all tmpl lrs of Inl e \<Rightarrow> Inl e | Inr strs \<Rightarrow> Inr (str # strs)))"

text \<open>
  The branch of a tie in \<^verbatim>\<open>_PoFileDiff._merge_target\<close>, after the template is
  built: the two lists of strings are padded to the same length, and the target is one
  formatted block per plural index for a unit with plural forms and the block of the
  first strings otherwise; the output is marked fuzzy and the conflict count is 1. The
  targets of the model are multi-strings, so \<^verbatim>\<open>getattr(target, "strings", [target])\<close>
  is \<open>strings\<close>. The constructor \<^verbatim>\<open>multistring\<close> raises \<^verbatim>\<open>ValueError\<close> on an
  empty list, and \<^verbatim>\<open>ls[0]\<close> raises \<^verbatim>\<open>IndexError\<close> on one.
\<close>

definition tie_target :: "string \<Rightarrow> pounit \<Rightarrow> pounit \<Rightarrow> pounit \<Rightarrow> error + pounit \<times> nat" where
  "tie_target tmpl out local remote =
     (let ls0 = strings (u_target local);
          rs0 = strings (u_target remote);
          ls = pad_to (length rs0) ls0;
          rs = pad_to (length ls) rs0
      in if hasplural local then
           (case format_all tmpl (zip ls rs) of
              Inl e \<Rightarrow> Inl e
            | Inr [] \<Rightarrow> Inl ValueError
            | Inr (str # strs) \<Rightarrow>
                Inr (markfuzzy True (out\<lparr>u_target := MultiString str strs\<rparr>), 1))
         else
           (case ls of
              [] \<Rightarrow> Inl IndexError
            | l0 # ls' \<Rightarrow>
                (case rs of
                   [] \<Rightarrow> Inl IndexError
                 | r0 # rs' \<Rightarrow>
                     (case py_format tmpl [l0, r0] of
                        Inl e \<Rightarrow> Inl e
                      | Inr str \<Rightarrow> Inr (markfuzzy True (out\<lparr>u_target := plain str\<rparr>), 1)))))"

text \<open>\<^verbatim>\<open>_PoFileDiff._merge_target\<close>.\<close>

definition merge_target :: "pounit \<Rightarrow> pounit \<Rightarrow> pounit \<Rightarrow> pounit \<Rightarrow> error + pounit \<times> nat" where
  "merge_target out base local remote =
     (if equal_translation base local then Inr (set_translation_from remote out, 0)
      else if equal_translation base remote then Inr (set_translation_from local out, 0)
      else if equal_translation local remote then Inr (set_translation_from local out, 0)
      else
        (let lqual = quality local; rqual = quality remote
         in if lqual > rqual then Inr (set_translation_from local out, 0)
            else if rqual > lqual then Inr (set_translation_from remote out, 0)
            else
              (case marker_template local remote of
                 Inl e \<Rightarrow> Inl e
               | Inr tmpl \<Rightarrow> tie_target tmpl out local remote)))"

section \<open>Merging catalogs\<close>

text \<open>
  The three buckets and the conflict counter of \<^verbatim>\<open>DiffUtils.merge\<close>, and the body of
  its loop over the triples of the matcher. The assertion
  \<^verbatim>\<open>isinstance(u, out.UnitClass)\<close> holds for every unit of the model.
\<close>

record buckets =
  headers :: "pounit list"
  normal :: "pounit list"
  obsolete :: "pounit list"
  conflicts :: nat

definition route :: "pounit option \<Rightarrow> nat \<Rightarrow> buckets \<Rightarrow> buckets" where
  "route u c acc =
     (case u of
        None \<Rightarrow> acc
      | Some u' \<Rightarrow>
          if isheader u' then acc\<lparr>headers := headers acc @ [u']\<rparr>
          else if isobsolete u' then acc\<lparr>obsolete := obsolete acc @ [u']\<rparr>
          else acc\<lparr>normal := normal acc @ [u']\<rparr>)
     \<lparr>conflicts := conflicts acc + c\<rparr>"

fun merge_loop ::
  "merge_unit_method \<Rightarrow> pounit triple list \<Rightarrow> buckets \<Rightarrow> (error + buckets) option" where
  "merge_loop merge_unit' [] acc = Some (Inr acc)"
| "merge_loop merge_unit' ((bu, lu, ru) # ts) acc =
     (case merge_unit merge_unit' bu lu ru of
        None \<Rightarrow> None
      | Some (Inl e) \<Rightarrow> Some (Inl e)
      | Some (Inr (u, c)) \<Rightarrow> merge_loop merge_unit' ts (route u c acc))"

text \<open>
  \<^verbatim>\<open>DiffUtils.merge\<close>. A catalog is given by the sequence of its units; the output
  catalog starts empty and \<^verbatim>\<open>addunit\<close> appends. The loop consumes the generator
  triple by triple, so an error of \<^verbatim>\<open>merge_unit\<close> on a yielded triple comes before
  an error that the matcher raises after its last triple.
\<close>

definition merge ::
  "merge_unit_method \<Rightarrow> pounit list \<Rightarrow> pounit list \<Rightarrow> pounit list
     \<Rightarrow> (error + pounit list \<times> nat) option" where
  "merge merge_unit' base local remote =
     (case match3 getid isobsolete base local remote of
        None \<Rightarrow> None
      | Some (ts, raised) \<Rightarrow>
          (case merge_loop merge_unit' ts
                  \<lparr>headers = [], normal = [], obsolete = [], conflicts = 0\<rparr> of
             None \<Rightarrow> None
           | Some (Inl e) \<Rightarrow> Some (Inl e)
           | Some (Inr acc) \<Rightarrow>
               (case raised of
                  Some e \<Rightarrow> Some (Inl e)
                | None \<Rightarrow> Some (Inr (headers acc @ normal acc @ obsolete acc, conflicts acc)))))"

section \<open>The matcher state, abstractly\<close>

text \<open>
  The definitions of this section describe the runs of \<open>match3\<close> for the proofs; they
  are not part of the program.
\<close>

text \<open>The unit that \<^verbatim>\<open>_fill_item_map\<close> leaves in a slot: the last unit of the
  sequence that has the key.\<close>

fun last_with :: "('u \<Rightarrow> 'k) \<Rightarrow> 'k \<Rightarrow> 'u list \<Rightarrow> 'u option" where
  "last_with keyfunc k [] = None"
| "last_with keyfunc k (u # us) =
     (case last_with keyfunc k us of
        Some v \<Rightarrow> Some v
      | None \<Rightarrow> if keyfunc u = k then Some u else None)"

text \<open>The item of a key after the three passes of \<^verbatim>\<open>_fill_item_map\<close>.\<close>

definition slot :: "('u \<Rightarrow> 'k) \<Rightarrow> 'u list \<Rightarrow> 'u list \<Rightarrow> 'u list \<Rightarrow> 'k \<Rightarrow> 'u Item3" where
  "slot keyfunc base local remote k =
     \<lparr>i_done = False, i_base = last_with keyfunc k base,
      i_local = last_with keyfunc k local, i_remote = last_with keyfunc k remote\<rparr>"

text \<open>The triple that is yielded for an item.\<close>

definition triple_of :: "'u Item3 \<Rightarrow> 'u triple" where
  "triple_of i = (i_base i, i_local i, i_remote i)"

text \<open>The keys of the three inputs.\<close>

definition all_keys :: "('u \<Rightarrow> 'k) \<Rightarrow> 'u list \<Rightarrow> 'u list \<Rightarrow> 'u list \<Rightarrow> 'k set" where
  "all_keys keyfunc base local remote = keyfunc ` (set base \<union> set local \<union> set remote)"

text \<open>The item map of a run in which exactly the keys in \<open>D\<close> are done.\<close>

definition rep ::
  "('u \<Rightarrow> 'k) \<Rightarrow> 'u list \<Rightarrow> 'u list \<Rightarrow> 'u list \<Rightarrow> 'k set \<Rightarrow> ('k \<times> 'u Item3) list \<Rightarrow> bool" where
  "rep keyfunc base local remote D m \<longleftrightarrow>
     distinct (map fst m)
     \<and> (\<forall>k. map_of m k =
            (if k \<in> all_keys keyfunc base local remote
             then Some ((slot keyfunc base local remote k)\<lparr>i_done := k \<in> D\<rparr>) else None))"

text \<open>The triples yielded for a sequence of keys.\<close>

definition emitted_of ::
  "('u \<Rightarrow> 'k) \<Rightarrow> 'u list \<Rightarrow> 'u list \<Rightarrow> 'u list \<Rightarrow> 'k list \<Rightarrow> 'u triple list" where
  "emitted_of keyfunc base local remote ks =
     map (\<lambda>k. triple_of (slot keyfunc base local remote k)) ks"

text \<open>The state of a run that has emitted the keys \<open>ks\<close> and whose walkers of local, remote
  and base stand before \<open>ls\<close>, \<open>rs\<close> and \<open>bs\<close>.\<close>

definition st ::
  "('u \<Rightarrow> 'k) \<Rightarrow> 'u list \<Rightarrow> 'u list \<Rightarrow> 'u list \<Rightarrow> ('k, 'u) state3
     \<Rightarrow> 'k list \<Rightarrow> 'u list \<Rightarrow> 'u list \<Rightarrow> 'u list \<Rightarrow> bool" where
  "st keyfunc base local remote s ks ls rs bs \<longleftrightarrow>
     rep keyfunc base local remote (set ks) (item_map3 s)
     \<and> lw s = Walker_init ls \<and> rw s = Walker_init rs \<and> bw s = Walker_init bs
     \<and> emitted3 s = emitted_of keyfunc base local remote ks"

text \<open>A walker over \<open>whole\<close> stands before \<open>xs\<close>, and every unit it has passed has
  a key in \<open>D\<close>.\<close>

definition consumed :: "('u \<Rightarrow> 'k) \<Rightarrow> 'k set \<Rightarrow> 'u list \<Rightarrow> 'u list \<Rightarrow> bool" where
  "consumed keyfunc D whole xs \<longleftrightarrow> (\<exists>pre. whole = pre @ xs \<and> keyfunc ` set pre \<subseteq> D)"

text \<open>The invariant of the main loop: the units passed by the walkers of local and remote are
  done, no key was emitted twice, and the current units of both walkers are not done.\<close>

definition Inv ::
  "('u \<Rightarrow> 'k) \<Rightarrow> 'u list \<Rightarrow> 'u list \<Rightarrow> 'u list \<Rightarrow> 'k list \<Rightarrow> 'u list \<Rightarrow> 'u list \<Rightarrow> bool" where
  "Inv keyfunc base local remote ks ls rs \<longleftrightarrow>
     consumed keyfunc (set ks) local ls \<and> consumed keyfunc (set ks) remote rs
     \<and> distinct ks \<and> set ks \<subseteq> all_keys keyfunc base local remote
     \<and> (ls \<noteq> [] \<longrightarrow> keyfunc (hd ls) \<notin> set ks)
     \<and> (rs \<noteq> [] \<longrightarrow> keyfunc (hd rs) \<notin> set ks)"

text \<open>The keys of the units that are present in a triple.\<close>

definition triple_keys :: "('u \<Rightarrow> 'k) \<Rightarrow> 'u triple \<Rightarrow> 'k set" where
  "triple_keys keyfunc t =
     (case t of (b, l, r) \<Rightarrow> keyfunc ` (set_option b \<union> set_option l \<union> set_option r))"

section \<open>The inputs of the matcher test\<close>

text \<open>
  The key function and the deleted predicate of \<^verbatim>\<open>test_set_matcher3\<close>: a leading
  tilde marks a deleted unit and is not part of the key.
\<close>

definition test_key :: "string \<Rightarrow> string" where
  "test_key x = (if take 1 x = ''~'' then drop 1 x else x)"

definition test_deleted :: "string \<Rightarrow> bool" where
  "test_deleted x \<longleftrightarrow> take 1 x = ''~''"

section \<open>Example units\<close>

text \<open>A unit with a source and a translation, and nothing else.\<close>

definition unit_of :: "string \<Rightarrow> string \<Rightarrow> pounit" where
  "unit_of src tgt = fresh_unit\<lparr>u_source := src, u_target := plain tgt\<rparr>"


section \<open>Bands of the output catalog\<close>





section \<open>Conflicting keys of the header\<close>

text \<open>
  A key that the merged key list of the header keeps: \<open>merge_list\<close> on the key lists
  keeps a key of local or remote unless base has it and one of the two sides has deleted it.
\<close>

definition kept_key :: "string list \<Rightarrow> string list \<Rightarrow> string list \<Rightarrow> string \<Rightarrow> bool" where
  "kept_key bk lk rk k \<longleftrightarrow>
     (k \<in> set lk \<or> k \<in> set rk) \<and> (k \<in> set bk \<longrightarrow> k \<in> set lk \<and> k \<in> set rk)"

text \<open>
  The values of a key in base, local and remote are pairwise distinct, where an absent
  key has the value \<^verbatim>\<open>None\<close>.
\<close>

definition conflicting ::
  "(string \<times> string) list \<Rightarrow> (string \<times> string) list \<Rightarrow> (string \<times> string) list \<Rightarrow> string \<Rightarrow> bool" where
  "conflicting bd ld rd k \<longleftrightarrow>
     map_of bd k \<noteq> map_of ld k \<and> map_of bd k \<noteq> map_of rd k \<and> map_of ld k \<noteq> map_of rd k"

text \<open>
  The date field that arbitrates a conflict on a key.
\<close>

definition arbiter :: "string \<Rightarrow> string" where
  "arbiter key = (if key \<in> template_headers then ''POT-Creation-Date'' else ''PO-Revision-Date'')"

text \<open>
  A header unit with the given header text.
\<close>

definition header_of :: "string \<Rightarrow> pounit" where
  "header_of str = fresh_unit\<lparr>u_header := True, u_target := plain str\<rparr>"

text \<open>
  Three headers that disagree on the language and on the revision date.
\<close>

definition example_base_header :: pounit where
  "example_base_header =
     fresh_unit\<lparr>u_header := True,
       u_target := plain (''Language: '' @ [CHR 0x0A]
         @ ''POT-Creation-Date: 2013-12-11 11:30+0100'' @ [CHR 0x0A]
         @ ''PO-Revision-Date: YEAR-MO-DA HO:MI+ZONE'' @ [CHR 0x0A])\<rparr>"

definition example_local_header :: pounit where
  "example_local_header =
     fresh_unit\<lparr>u_header := True,
       u_target := plain (''Language: cs'' @ [CHR 0x0A]
         @ ''POT-Creation-Date: 2013-12-11 11:30+0100'' @ [CHR 0x0A]
         @ ''PO-Revision-Date: 2013-12-11 11:50+0100'' @ [CHR 0x0A])\<rparr>"

definition example_remote_header :: pounit where
  "example_remote_header =
     fresh_unit\<lparr>u_header := True,
       u_target := plain (''Language: cs_CZ'' @ [CHR 0x0A]
         @ ''POT-Creation-Date: 2013-12-11 11:30+0100'' @ [CHR 0x0A]
         @ ''PO-Revision-Date: 2013-12-11 11:40+0100'' @ [CHR 0x0A])\<rparr>"

text \<open>
  Two headers that disagree on the language and whose revision dates are in different
  zones: the first is 12:00 in the zone \<open>+0000\<close>, the second 12:30 in the zone
  \<open>+0200\<close>, half an hour and one hour before the first.
\<close>

definition zone_local_header :: pounit where
  "zone_local_header =
     fresh_unit\<lparr>u_header := True,
       u_target := plain (''Language: cs'' @ [CHR 0x0A]
         @ ''PO-Revision-Date: 2013-12-11 12:00+0000'' @ [CHR 0x0A])\<rparr>"

definition zone_remote_header :: pounit where
  "zone_remote_header =
     fresh_unit\<lparr>u_header := True,
       u_target := plain (''Language: cs_CZ'' @ [CHR 0x0A]
         @ ''PO-Revision-Date: 2013-12-11 12:30+0200'' @ [CHR 0x0A])\<rparr>"

section \<open>The conflict marker, by the specification\<close>

text \<open>
  The block of the conflict marker as the specification prints it: a banner with the file
  name and the project version of local, the translation of local, and the same for
  remote.
\<close>

definition conflict_block ::
  "string \<Rightarrow> string \<Rightarrow> string \<Rightarrow> string \<Rightarrow> string \<Rightarrow> string \<Rightarrow> string" where
  "conflict_block lfile lproject rfile rproject l r =
     ''#-#-#-#-#  '' @ lfile @ '' ('' @ lproject @ '')  #-#-#-#-#'' @ [CHR 0x0A]
     @ l @ [CHR 0x0A]
     @ ''#-#-#-#-#  '' @ rfile @ '' ('' @ rproject @ '')  #-#-#-#-#'' @ [CHR 0x0A]
     @ r @ [CHR 0x0A]"

text \<open>The project version of the label: \<open>???\<close> when the header of the store has none.\<close>

definition project_label :: "pounit \<Rightarrow> string" where
  "project_label u =
     (case u_store u of
        None \<Rightarrow> ''???''
      | Some sto \<Rightarrow> get_or (s_header sto) ''Project-Id-Version'' ''???'')"

text \<open>
  The target of a tie: one block per plural index, after the shorter side is padded with
  empty strings, for a unit with plural forms, and the block of the two translations
  otherwise.
\<close>

definition conflict_marker :: "pounit \<Rightarrow> pounit \<Rightarrow> multistring" where
  "conflict_marker local remote =
     (let block = conflict_block (store_filename local ''local'') (project_label local)
                    (store_filename remote ''remote'') (project_label remote);
          ls = pad_to (length (strings (u_target remote))) (strings (u_target local));
          rs = pad_to (length (strings (u_target local))) (strings (u_target remote))
      in if hasplural local then
           MultiString (block (mainstring (u_target local)) (mainstring (u_target remote)))
             (map (\<lambda>(l, r). block l r) (zip (tl ls) (tl rs)))
         else plain (block (mainstring (u_target local)) (mainstring (u_target remote))))"

text \<open>
  Two stores without a file name: the header of the first has a project version with a
  percent sign in it, the header of the second has no project version.
\<close>

definition percent_store :: store where
  "percent_store = \<lparr>s_filename = None, s_header = [(''Project-Id-Version'', ''100%safe'')]\<rparr>"

definition plain_store :: store where
  "plain_store = \<lparr>s_filename = None, s_header = []\<rparr>"

section \<open>Properties of the simple merge\<close>

text \<open>
  Claim C6. For all values \<open>b\<close>, \<open>l\<close>, \<open>r\<close>: \<open>merge_simple b l r\<close> returns \<open>l\<close>
  when \<open>b = r\<close>; otherwise it returns \<open>r\<close> when \<open>b = l\<close>; otherwise it returns \<open>l\<close>
  when \<open>l = r\<close>; and it raises an error if and only if \<open>b\<close>, \<open>l\<close> and \<open>r\<close> are
  pairwise distinct.
\<close>

theorem merge_simple_cases:
  "(b = r \<longrightarrow> merge_simple b l r = Inr l)
   \<and> (b \<noteq> r \<and> b = l \<longrightarrow> merge_simple b l r = Inr r)
   \<and> (b \<noteq> r \<and> b \<noteq> l \<and> l = r \<longrightarrow> merge_simple b l r = Inr l)
   \<and> ((\<exists>e. merge_simple b l r = Inl e) \<longleftrightarrow> (b \<noteq> l \<and> b \<noteq> r \<and> l \<noteq> r))"
  by (simp add: merge_simple_def)

theorem merge_simple_cases_witness:
  "merge_simple (1::int) 2 1 = Inr 2
   \<and> merge_simple (1::int) 1 3 = Inr 3
   \<and> merge_simple (1::int) 2 2 = Inr 2
   \<and> (\<exists>e. merge_simple (1::int) 2 3 = Inl e)"
  using merge_simple_cases [of "1::int" 1 2] merge_simple_cases [of "1::int" 3 1]
    merge_simple_cases [of "1::int" 2 2] merge_simple_cases [of "1::int" 3 2]
  by simp

section \<open>The two-way matcher stops early\<close>

text \<open>
  Claim C9. For inputs without repeated keys the two-way matcher is claimed to emit every
  key of old and new in exactly one pair and to pass its terminal assertions. The loop of
  \<open>match2\<close> runs only while both walkers are valid, so it stops as soon as one side is
  exhausted: for an old sequence of one unit and an empty new sequence, whatever the key
  function and the deleted predicate, nothing is emitted and the assertion that the walker
  of old is exhausted fails.
\<close>

theorem match2_old_only_fails:
  "match2 keyfunc deletedfunc [u] [] = Some ([], Some AssertionError)"
  by (simp add: match2_def init2_def main_loop2.simps Walker_init_def walker_next_def
      final_asserts2_def)

section \<open>The time parser\<close>

text \<open>
  Claim C7. The time parser is claimed to return 0 without failing both for a string that
  does not match the pattern and for an absent header field, so that the arbitration
  between two headers always succeeds. A string that does not match gives 0, but an
  absent field reaches \<open>get_time\<close> as \<open>None\<close> and raises \<open>TypeError\<close>; so does the
  comparison \<open>newer\<close> of two headers when the first of them lacks the date, and so does
  the merge of three headers that conflict on a key and have no revision date.
\<close>

theorem get_time_absent_raises:
  "get_time mktime timezone None = Inl TypeError
   \<and> newer mktime timezone [(''Language'', ''cs'')]
        [(''PO-Revision-Date'', ''2013-12-11 11:40+0100'')] ''PO-Revision-Date'' = Inl TypeError
   \<and> merge_header parseheaderstring mktime timezone fresh_unit
        (header_of ''Language: '') (header_of ''Language: cs'') (header_of ''Language: cs_CZ'')
      = Some (Inl TypeError)
   \<and> get_time mktime timezone (Some ''YEAR-MO-DA HO:MI+ZONE'') = Inr 0"
proof -
  have g: "get_time mktime timezone None = Inl TypeError"
    by (simp add: get_time_def)
  have n: "newer mktime timezone [(''Language'', ''cs'')]
        [(''PO-Revision-Date'', ''2013-12-11 11:40+0100'')] ''PO-Revision-Date'' = Inl TypeError"
    by (simp add: newer_def g)
  have p: "parseheaderstring ''Language: '' = [(''Language'', [])]"
    "parseheaderstring ''Language: cs'' = [(''Language'', ''cs'')]"
    "parseheaderstring ''Language: cs_CZ'' = [(''Language'', ''cs_CZ'')]"
    by code_simp+
  have l: "merge_list [''Language''] [''Language''] [''Language''] = Some (Inr [''Language''])"
    by code_simp
  have m: "merge_header parseheaderstring mktime timezone fresh_unit
        (header_of ''Language: '') (header_of ''Language: cs'') (header_of ''Language: cs_CZ'')
      = Some (Inl TypeError)"
    by (simp add: merge_header_def header_of_def fresh_unit_def plain_def p l
        merge_header_key_def template_headers_def newer_def g)
  have z: "get_time mktime timezone (Some ''YEAR-MO-DA HO:MI+ZONE'') = Inr 0"
    by (simp add: get_time_def time_pattern_match_def is_digit_def eval_nat_numeral)
  show ?thesis by (intro conjI g n m z)
qed

text \<open>
  Claim C8. For a string that matches the pattern the parser is claimed to return the
  stated local time minus sign times (hours times 3600 plus minutes times 60). For
  \<open>2013-12-11 11:30+0100\<close> the source adds 3600 + 60 seconds to the time of the fields
  instead of subtracting 3600: it adds the offset, and it uses the hours of the offset
  where the minutes belong.
\<close>

theorem get_time_offset_wrong:
  "get_time mktime timezone (Some ''2013-12-11 11:30+0100'')
     = Inr (mktime (2013, 12, 11, 11, 30, 0, 0, 0, 0) + timezone + 3660)
   \<and> get_time mktime timezone (Some ''2013-12-11 11:30+0100'')
     \<noteq> Inr (spec_utc_instant (mktime (2013, 12, 11, 11, 30, 0, 0, 0, 0) + timezone) 1 1 0)"
  by (simp add: get_time_def time_pattern_match_def is_digit_def is_space_def spaces_star_def
      opt_seconds_def int_of_digits_def digit_value_def eval_nat_numeral spec_utc_instant_def
      sign_factor_def)

section \<open>A unit that only base has\<close>

text \<open>
  Claim C2. The merge of a base with twice the same catalog is claimed to return that
  catalog with no conflict, and to complete also when base has a unit that the catalog
  lacks. For a base of one unit that is not obsolete and two empty catalogs the matcher
  yields the triple of that unit alone, \<open>merge_unit\<close> clones the absent local unit and
  calls \<^verbatim>\<open>makeobsolete\<close> on \<^verbatim>\<open>None\<close>: the merge raises \<open>AttributeError\<close>,
  whatever the method \<open>merge_unit'\<close> is.
\<close>

theorem merge_base_only_raises:
  "merge merge_unit' [fresh_unit\<lparr>u_source := ''foo'', u_target := plain ''FOO''\<rparr>] [] []
     = Some (Inl AttributeError)"
  by (simp add: merge_def match3_def init3_def main_loop3.simps drain_base.simps
      Walker_init_def walker_next_def final_asserts3_def new_Item3_def walker_get_def
      item_of_def merge_unit_def clone_unit_def isobsolete_def fresh_unit_def)

section \<open>The three-way matcher covers every key once\<close>

subsection \<open>The item map and the walkers\<close>

lemma last_with_Some: "last_with kf k us = Some u \<Longrightarrow> kf u = k \<and> u \<in> set us"
  by (induction us) (auto split: option.splits if_splits)

lemma last_with_None: "last_with kf k us = None \<longleftrightarrow> k \<notin> kf ` set us"
  by (induction us) (auto split: option.splits if_splits)

lemma map_of_fill:
  assumes "\<And>u u' i. setf u (setf u' i) = setf u i"
  shows "map_of (fill_item_map kf fresh setf us m) k =
     (case last_with kf k us of
        None \<Rightarrow> map_of m k
      | Some u \<Rightarrow> Some (setf u (case map_of m k of None \<Rightarrow> fresh | Some i \<Rightarrow> i)))"
proof (induction us arbitrary: m)
  case Nil
  then show ?case by simp
next
  case (Cons u us)
  show ?case
    by (simp add: Cons.IH update_conv' Let_def assms split: option.splits)
qed

lemma distinct_fill:
  "distinct (map fst m) \<Longrightarrow> distinct (map fst (fill_item_map kf fresh setf us m))"
  by (induction us arbitrary: m) (simp_all add: Let_def distinct_update)

lemma map_of_init:
  "map_of (item_map3 (init3 kf base local remote)) k =
     (if last_with kf k base = None \<and> last_with kf k local = None \<and> last_with kf k remote = None
      then None else Some (slot kf base local remote k))"
  by (cases "last_with kf k base"; cases "last_with kf k local"; cases "last_with kf k remote")
     (simp_all add: init3_def map_of_fill slot_def new_Item3_def)

lemma rep_init: "rep kf base local remote {} (item_map3 (init3 kf base local remote))"
proof -
  have d: "distinct (map fst (item_map3 (init3 kf base local remote)))"
    by (simp add: init3_def distinct_fill)
  have k: "(last_with kf k base = None \<and> last_with kf k local = None \<and> last_with kf k remote = None)
      \<longleftrightarrow> k \<notin> all_keys kf base local remote" for k
    by (auto simp: last_with_None all_keys_def)
  have e: "(slot kf base local remote k)\<lparr>i_done := False\<rparr> = slot kf base local remote k" for k
    by (simp add: slot_def)
  show ?thesis
    unfolding rep_def using d by (simp add: map_of_init k e)
qed

lemma Walker_init_Nil: "Walker_init [] = \<lparr>w_iter = [], w_current = None, w_valid = False\<rparr>"
  by (simp add: Walker_init_def walker_next_def)

lemma Walker_init_Cons: "Walker_init (x # xs) = \<lparr>w_iter = xs, w_current = Some x, w_valid = True\<rparr>"
  by (simp add: Walker_init_def walker_next_def)

lemma walker_next_init: "walker_next (Walker_init xs) = Walker_init (tl xs)"
  by (cases xs; cases "tl xs") (simp_all add: Walker_init_def walker_next_def)

lemma w_valid_init: "w_valid (Walker_init xs) \<longleftrightarrow> xs \<noteq> []"
  by (cases xs) (simp_all add: Walker_init_Nil Walker_init_Cons)

lemma walker_get_init: "walker_get (Walker_init (x # xs)) = Inr x"
  by (simp add: Walker_init_Cons walker_get_def)

lemma item_of_rep:
  assumes "rep kf base local remote D m" "kf u \<in> all_keys kf base local remote"
  shows "item_of kf m u = Inr ((slot kf base local remote (kf u))\<lparr>i_done := kf u \<in> D\<rparr>)"
  using assms by (simp add: item_of_def rep_def)

lemma skip_done_rep:
  assumes "rep kf base local remote D m" "kf ` set xs \<subseteq> all_keys kf base local remote"
  shows "skip_done kf m (Walker_init xs) = Inr (Walker_init (dropWhile (\<lambda>u. kf u \<in> D) xs))"
  using assms(2)
proof (induction xs)
  case Nil
  then show ?case by (subst skip_done.simps) (simp add: w_valid_init)
next
  case (Cons x xs)
  then have k: "kf x \<in> all_keys kf base local remote" and IH: "skip_done kf m (Walker_init xs) = Inr (Walker_init (dropWhile (\<lambda>u. kf u \<in> D) xs))"
    by auto
  show ?case
    by (subst skip_done.simps)
       (simp add: w_valid_init walker_get_init item_of_rep[OF assms(1) k] walker_next_init IH)
qed

lemma consumed_mono: "consumed kf D w xs \<Longrightarrow> D \<subseteq> D' \<Longrightarrow> consumed kf D' w xs"
  unfolding consumed_def by blast

lemma consumed_tl: "consumed kf D w (x # xs) \<Longrightarrow> kf x \<in> D \<Longrightarrow> consumed kf D w xs"
  unfolding consumed_def
proof -
  assume "\<exists>pre. w = pre @ x # xs \<and> kf ` set pre \<subseteq> D" and x: "kf x \<in> D"
  then obtain pre where "w = pre @ x # xs" "kf ` set pre \<subseteq> D" by blast
  then have "w = (pre @ [x]) @ xs \<and> kf ` set (pre @ [x]) \<subseteq> D" using x by simp
  then show "\<exists>pre. w = pre @ xs \<and> kf ` set pre \<subseteq> D" by blast
qed

lemma consumed_dropWhile:
  assumes "consumed kf D w xs"
  shows "consumed kf D w (dropWhile (\<lambda>u. kf u \<in> D) xs)"
proof -
  from assms obtain pre where p: "w = pre @ xs" "kf ` set pre \<subseteq> D"
    unfolding consumed_def by blast
  let ?P = "\<lambda>u. kf u \<in> D"
  have "w = (pre @ takeWhile ?P xs) @ dropWhile ?P xs" using p by simp
  moreover have "kf ` set (pre @ takeWhile ?P xs) \<subseteq> D"
    using p(2) by (auto dest: set_takeWhileD)
  ultimately show ?thesis unfolding consumed_def by blast
qed

lemma consumed_subset: "consumed kf D w xs \<Longrightarrow> set xs \<subseteq> set w"
  unfolding consumed_def by auto

lemma consumed_Nil: "consumed kf D w [] \<Longrightarrow> kf ` set w \<subseteq> D"
  unfolding consumed_def by auto

lemma consumed_all: "consumed kf D w w"
  unfolding consumed_def by simp

lemma rep_mark:
  assumes "rep kf base local remote D m" "k \<in> all_keys kf base local remote"
  shows "rep kf base local remote (insert k D)
           (AList.update k (((slot kf base local remote k)\<lparr>i_done := b\<rparr>)\<lparr>i_done := True\<rparr>) m)"
  using assms unfolding rep_def by (simp add: distinct_update update_conv')

lemma emit3_st:
  assumes "st kf base local remote s ks ls rs bs"
    and "kf u \<in> all_keys kf base local remote" and "kf u \<notin> set ks"
  shows "\<exists>s1. emit3 kf s u = Inr s1 \<and> st kf base local remote s1 (ks @ [kf u]) ls rs bs"
proof -
  from assms(1) have r: "rep kf base local remote (set ks) (item_map3 s)"
    by (simp add: st_def)
  have i: "item_of kf (item_map3 s) u = Inr ((slot kf base local remote (kf u))\<lparr>i_done := False\<rparr>)"
    using item_of_rep[OF r assms(2)] assms(3) by simp
  let ?s1 = "s\<lparr>emitted3 := emitted3 s @ [triple_of (slot kf base local remote (kf u))],
               item_map3 := AList.update (kf u)
                  (((slot kf base local remote (kf u))\<lparr>i_done := False\<rparr>)\<lparr>i_done := True\<rparr>)
                  (item_map3 s)\<rparr>"
  have "emit3 kf s u = Inr ?s1"
    by (simp add: emit3_def i triple_of_def)
  moreover have "st kf base local remote ?s1 (ks @ [kf u]) ls rs bs"
    using assms(1) rep_mark[OF r assms(2), of False]
    by (simp add: st_def emitted_of_def)
  ultimately show ?thesis by blast
qed

lemma inject_remote_st:
  assumes "st kf base local remote s ks ls rs bs"
    and "consumed kf D remote rs"
  shows "\<exists>b. inject_remote kf df s = Inr b \<and> (b \<longrightarrow> rs \<noteq> [])
            \<and> (\<not> b \<and> rs \<noteq> [] \<longrightarrow> kf (hd rs) \<in> kf ` set local)"
proof (cases rs)
  case Nil
  then show ?thesis using assms(1) by (auto simp add: inject_remote_def st_def w_valid_init)
next
  case (Cons r rs')
  from assms(1) have rp: "rep kf base local remote (set ks) (item_map3 s)"
    and rw: "rw s = Walker_init (r # rs')"
    by (simp_all add: st_def Cons)
  have rin: "r \<in> set remote" using consumed_subset[OF assms(2)] Cons by auto
  then have k: "kf r \<in> all_keys kf base local remote" by (auto simp: all_keys_def)
  have rem: "last_with kf (kf r) remote \<noteq> None"
    using rin by (simp add: last_with_None)
  have i: "item_of kf (item_map3 s) r = Inr ((slot kf base local remote (kf r))\<lparr>i_done := kf r \<in> set ks\<rparr>)"
    by (rule item_of_rep[OF rp k])
  show ?thesis
  proof (cases "last_with kf (kf r) local")
    case None
    then show ?thesis
      by (auto simp add: inject_remote_def rw w_valid_init walker_get_init not_local_def i slot_def Cons)
  next
    case (Some l)
    then have "kf r \<in> kf ` set local" using last_with_None[of kf "kf r" local] by simp
    then show ?thesis using rem Some
      by (auto simp add: inject_remote_def rw w_valid_init walker_get_init not_local_def i slot_def Cons)
  qed
qed

lemma choose3_st:
  assumes s: "st kf base local remote s ks ls rs bs"
    and inv: "Inv kf base local remote ks ls rs"
    and ne: "ls \<noteq> [] \<or> rs \<noteq> []"
  shows "\<exists>s1 k ls1 rs1. choose3 kf df s = Inr s1
           \<and> st kf base local remote s1 (ks @ [k]) ls1 rs1 bs
           \<and> k \<notin> set ks \<and> k \<in> all_keys kf base local remote
           \<and> consumed kf (set (ks @ [k])) local ls1
           \<and> consumed kf (set (ks @ [k])) remote rs1
           \<and> length ls1 + length rs1 < length ls + length rs"
proof -
  from inv have cl: "consumed kf (set ks) local ls" and cr: "consumed kf (set ks) remote rs"
    and hl: "ls \<noteq> [] \<longrightarrow> kf (hd ls) \<notin> set ks" and hr: "rs \<noteq> [] \<longrightarrow> kf (hd rs) \<notin> set ks"
    by (simp_all add: Inv_def)
  from s have lws: "lw s = Walker_init ls" and rws: "rw s = Walker_init rs"
    by (simp_all add: st_def)
  from inject_remote_st[OF s cr, of df] obtain b where
    b: "inject_remote kf df s = Inr b" "b \<longrightarrow> rs \<noteq> []"
       "\<not> b \<and> rs \<noteq> [] \<longrightarrow> kf (hd rs) \<in> kf ` set local"
    by blast
  have sub: "set ks \<subseteq> set (ks @ [k])" for k by auto
  show ?thesis
  proof (cases b)
    case True
    with b obtain r rs' where rs: "rs = r # rs'" by (cases rs) auto
    have rin: "r \<in> set remote" using consumed_subset[OF cr] rs by auto
    then have k: "kf r \<in> all_keys kf base local remote" by (auto simp: all_keys_def)
    have nd: "kf r \<notin> set ks" using hr rs by simp
    from emit3_st[OF s k nd] obtain s1 where
      s1: "emit3 kf s r = Inr s1" "st kf base local remote s1 (ks @ [kf r]) ls rs bs"
      by blast
    let ?s2 = "s1\<lparr>rw := walker_next (rw s1)\<rparr>"
    have "choose3 kf df s = Inr ?s2"
      using True by (simp add: choose3_def b rws rs walker_get_init s1)
    moreover have "st kf base local remote ?s2 (ks @ [kf r]) ls rs' bs"
      using s1(2) by (simp add: st_def rs walker_next_init)
    moreover have "consumed kf (set (ks @ [kf r])) local ls"
      by (rule consumed_mono[OF cl sub])
    moreover have "consumed kf (set (ks @ [kf r])) remote rs'"
      using consumed_mono[OF cr sub, of "kf r"] consumed_tl[of kf _ remote r rs'] rs by simp
    ultimately show ?thesis using k nd rs by force
  next
    case False
    have lne: "ls \<noteq> []"
    proof
      assume e: "ls = []"
      with ne have r: "rs \<noteq> []" by simp
      with b False have "kf (hd rs) \<in> kf ` set local" by simp
      moreover have "kf ` set local \<subseteq> set ks" using consumed_Nil cl e by fastforce
      ultimately show False using hr r by auto
    qed
    then obtain l ls' where ls: "ls = l # ls'" by (cases ls) auto
    have lin: "l \<in> set local" using consumed_subset[OF cl] ls by auto
    then have k: "kf l \<in> all_keys kf base local remote" by (auto simp: all_keys_def)
    have nd: "kf l \<notin> set ks" using hl ls by simp
    from emit3_st[OF s k nd] obtain s1 where
      s1: "emit3 kf s l = Inr s1" "st kf base local remote s1 (ks @ [kf l]) ls rs bs"
      by blast
    let ?s2 = "s1\<lparr>lw := walker_next (lw s1)\<rparr>"
    have "choose3 kf df s = Inr ?s2"
      using False by (simp add: choose3_def b lws ls w_valid_init walker_get_init s1)
    moreover have "st kf base local remote ?s2 (ks @ [kf l]) ls' rs bs"
      using s1(2) by (simp add: st_def ls walker_next_init)
    moreover have "consumed kf (set (ks @ [kf l])) remote rs"
      by (rule consumed_mono[OF cr sub])
    moreover have "consumed kf (set (ks @ [kf l])) local ls'"
      using consumed_mono[OF cl sub, of "kf l"] consumed_tl[of kf _ local l ls'] ls by simp
    ultimately show ?thesis using k nd ls by force
  qed
qed

lemma loop_body3_st:
  assumes s: "st kf base local remote s ks ls rs bs"
    and inv: "Inv kf base local remote ks ls rs"
    and ne: "ls \<noteq> [] \<or> rs \<noteq> []"
  shows "\<exists>s' ks' ls' rs'. loop_body3 kf df s = Inr s'
           \<and> st kf base local remote s' ks' ls' rs' bs
           \<and> Inv kf base local remote ks' ls' rs'
           \<and> length ls' + length rs' < length ls + length rs"
proof -
  from choose3_st[OF s inv ne, of df] obtain s1 k ls1 rs1 where
    c: "choose3 kf df s = Inr s1"
    and s1: "st kf base local remote s1 (ks @ [k]) ls1 rs1 bs"
    and k: "k \<notin> set ks" "k \<in> all_keys kf base local remote"
    and cl: "consumed kf (set (ks @ [k])) local ls1"
    and cr: "consumed kf (set (ks @ [k])) remote rs1"
    and m: "length ls1 + length rs1 < length ls + length rs"
    by blast
  let ?D = "set (ks @ [k])"
  let ?P = "\<lambda>u. kf u \<in> ?D"
  from s1 have rp: "rep kf base local remote ?D (item_map3 s1)"
    and w: "lw s1 = Walker_init ls1" "rw s1 = Walker_init rs1"
    by (simp_all add: st_def)
  have kl: "kf ` set ls1 \<subseteq> all_keys kf base local remote"
    using consumed_subset[OF cl] by (auto simp: all_keys_def)
  have kr: "kf ` set rs1 \<subseteq> all_keys kf base local remote"
    using consumed_subset[OF cr] by (auto simp: all_keys_def)
  let ?s' = "s1\<lparr>rw := Walker_init (dropWhile ?P rs1), lw := Walker_init (dropWhile ?P ls1)\<rparr>"
  have "loop_body3 kf df s = Inr ?s'"
    by (simp add: loop_body3_def c w skip_done_rep[OF rp kl] skip_done_rep[OF rp kr])
  moreover have "st kf base local remote ?s' (ks @ [k]) (dropWhile ?P ls1) (dropWhile ?P rs1) bs"
    using s1 by (simp add: st_def)
  moreover have "Inv kf base local remote (ks @ [k]) (dropWhile ?P ls1) (dropWhile ?P rs1)"
    unfolding Inv_def
    using consumed_dropWhile[OF cl] consumed_dropWhile[OF cr] k inv
      hd_dropWhile[of ?P ls1] hd_dropWhile[of ?P rs1]
    by (simp add: Inv_def)
  moreover have "length (dropWhile ?P ls1) + length (dropWhile ?P rs1) < length ls + length rs"
    using m length_dropWhile_le[of ?P ls1] length_dropWhile_le[of ?P rs1] by linarith
  ultimately show ?thesis by blast
qed

lemma main_loop3_st:
  assumes "st kf base local remote s ks ls rs bs"
    and "Inv kf base local remote ks ls rs"
  shows "\<exists>s' ks'. main_loop3 kf df s = Some (Inr s')
           \<and> st kf base local remote s' ks' [] [] bs
           \<and> Inv kf base local remote ks' [] []"
  using assms
proof (induction "length ls + length rs" arbitrary: s ks ls rs rule: less_induct)
  case less
  show ?case
  proof (cases "ls \<noteq> [] \<or> rs \<noteq> []")
    case False
    then have "main_loop3 kf df s = Some (Inr s)"
      using less.prems(1) by (subst main_loop3.simps) (simp add: st_def w_valid_init)
    then show ?thesis using less.prems False by auto
  next
    case True
    from loop_body3_st[OF less.prems True, of df] obtain s' ks' ls' rs' where
      b: "loop_body3 kf df s = Inr s'" "st kf base local remote s' ks' ls' rs' bs"
         "Inv kf base local remote ks' ls' rs'" "length ls' + length rs' < length ls + length rs"
      by blast
    have "main_loop3 kf df s = main_loop3 kf df s'"
      using True less.prems(1) by (subst main_loop3.simps) (simp add: st_def w_valid_init b(1))
    then show ?thesis using less.hyps[OF b(4) b(2) b(3)] by simp
  qed
qed

lemma drain_base_st:
  assumes "st kf base local remote s ks [] [] bs"
    and "distinct ks" and "set ks \<subseteq> all_keys kf base local remote"
    and "kf ` set bs \<subseteq> all_keys kf base local remote"
  shows "\<exists>s' ks'. drain_base kf s = Inr s'
           \<and> st kf base local remote s' ks' [] [] []
           \<and> distinct ks' \<and> set ks' = set ks \<union> kf ` set bs"
  using assms
proof (induction bs arbitrary: s ks)
  case Nil
  then have "drain_base kf s = Inr s"
    by (subst drain_base.simps) (simp add: st_def w_valid_init)
  then show ?case using Nil by auto
next
  case (Cons b bs)
  from Cons.prems(1) have rp: "rep kf base local remote (set ks) (item_map3 s)"
    and w: "bw s = Walker_init (b # bs)"
    by (simp_all add: st_def)
  from Cons.prems(4) have k: "kf b \<in> all_keys kf base local remote"
    and ks: "kf ` set bs \<subseteq> all_keys kf base local remote"
    by auto
  let ?i = "(slot kf base local remote (kf b))\<lparr>i_done := kf b \<in> set ks\<rparr>"
  let ?s1 = "s\<lparr>emitted3 := (if i_done ?i then emitted3 s
                               else emitted3 s @ [(i_base ?i, i_local ?i, i_remote ?i)]),
               item_map3 := AList.update (kf b) (?i\<lparr>i_done := True\<rparr>) (item_map3 s),
               bw := walker_next (bw s)\<rparr>"
  let ?ks1 = "if kf b \<in> set ks then ks else ks @ [kf b]"
  have step: "drain_base kf s = drain_base kf ?s1"
    by (subst drain_base.simps) (simp add: w w_valid_init walker_get_init item_of_rep[OF rp k])
  have "insert (kf b) (set ks) = set ?ks1" by auto
  then have "rep kf base local remote (set ?ks1) (item_map3 ?s1)"
    using rep_mark[OF rp k, of "kf b \<in> set ks"] by simp
  then have st1: "st kf base local remote ?s1 ?ks1 [] [] bs"
    using Cons.prems(1) by (simp add: st_def w walker_next_init emitted_of_def triple_of_def)
  have d1: "distinct ?ks1" using Cons.prems(2) by simp
  have sub1: "set ?ks1 \<subseteq> all_keys kf base local remote" using Cons.prems(3) k by simp
  from Cons.IH[OF st1 d1 sub1 ks] obtain s' ks' where
    r: "drain_base kf ?s1 = Inr s'" "st kf base local remote s' ks' [] [] []"
       "distinct ks'" "set ks' = set ?ks1 \<union> kf ` set bs"
    by blast
  have "set ks' = set ks \<union> kf ` set (b # bs)" using r(4) by auto
  then show ?case using step r(1,2,3) by metis
qed

lemma final_asserts3_st:
  assumes "st kf base local remote s ks [] [] []"
    and "set ks = all_keys kf base local remote"
  shows "final_asserts3 s"
proof -
  from assms(1) have rp: "rep kf base local remote (set ks) (item_map3 s)"
    and w: "lw s = Walker_init []" "rw s = Walker_init []" "bw s = Walker_init []"
    by (simp_all add: st_def)
  have "i_done i" if "(k, i) \<in> set (item_map3 s)" for k i
  proof -
    from rp have "distinct (map fst (item_map3 s))" by (simp add: rep_def)
    then have m: "map_of (item_map3 s) k = Some i"
      using that by (rule map_of_is_SomeI)
    then have "k \<in> all_keys kf base local remote"
      using rp by (auto simp: rep_def split: if_splits)
    then show ?thesis using m rp assms(2) by (auto simp: rep_def)
  qed
  then have "[i \<leftarrow> map snd (item_map3 s). \<not> i_done i] = []"
    by (auto simp: filter_empty_conv)
  then show ?thesis by (simp add: final_asserts3_def w w_valid_init)
qed

lemma match3_result:
  "\<exists>ks. match3 kf df base local remote = Some (emitted_of kf base local remote ks, None)
        \<and> distinct ks \<and> set ks = all_keys kf base local remote"
proof -
  let ?s0 = "init3 kf base local remote"
  have st0: "st kf base local remote ?s0 [] local remote base"
    using rep_init[of kf base local remote]
    by (simp add: st_def emitted_of_def) (simp add: init3_def)
  have inv0: "Inv kf base local remote [] local remote"
    by (simp add: Inv_def consumed_all)
  from main_loop3_st[OF st0 inv0, of df] obtain s1 ks1 where
    m: "main_loop3 kf df ?s0 = Some (Inr s1)" "st kf base local remote s1 ks1 [] [] base"
       "Inv kf base local remote ks1 [] []"
    by blast
  from m(3) have d1: "distinct ks1" and sub1: "set ks1 \<subseteq> all_keys kf base local remote"
    and l: "kf ` set local \<subseteq> set ks1" and r: "kf ` set remote \<subseteq> set ks1"
    by (simp_all add: Inv_def consumed_Nil)
  have b: "kf ` set base \<subseteq> all_keys kf base local remote" by (auto simp: all_keys_def)
  from drain_base_st[OF m(2) d1 sub1 b] obtain s2 ks2 where
    d: "drain_base kf s1 = Inr s2" "st kf base local remote s2 ks2 [] [] []"
       "distinct ks2" "set ks2 = set ks1 \<union> kf ` set base"
    by blast
  have all: "set ks2 = all_keys kf base local remote"
    using d(4) sub1 l r by (auto simp: all_keys_def)
  have "match3 kf df base local remote = Some (emitted_of kf base local remote ks2, None)"
    using final_asserts3_st[OF d(2) all] d(2)
    by (simp add: match3_def m(1) d(1) st_def)
  then show ?thesis using d(3) all by blast
qed

lemma triple_keys_slot:
  assumes "k \<in> all_keys kf base local remote"
  shows "triple_keys kf (triple_of (slot kf base local remote k)) = {k}"
proof -
  have "last_with kf k base \<noteq> None \<or> last_with kf k local \<noteq> None \<or> last_with kf k remote \<noteq> None"
    using assms by (auto simp: last_with_None all_keys_def)
  then show ?thesis
    by (auto simp: triple_keys_def triple_of_def slot_def dest: last_with_Some)
qed

lemma last_with_distinct:
  "distinct (map kf us) \<Longrightarrow> u \<in> set us \<Longrightarrow> last_with kf (kf u) us = Some u"
  by (induction us) (auto simp: last_with_None rev_image_eqI dest: last_with_Some split: option.splits)

text \<open>
  Claim C1. For all finite input sequences base, local and remote in which no key occurs
  twice within one sequence, \<open>match3\<close> returns: it yields a finite sequence of triples
  and raises nothing. Every triple has at least one component, and the components that
  are present have one and the same key; every key of the three inputs is the key of
  exactly one position of the sequence. Moreover every unit of every input is a component
  of some triple, on the side of its input.
\<close>

theorem match3_coverage:
  assumes "distinct (map keyfunc base)" and "distinct (map keyfunc local)"
    and "distinct (map keyfunc remote)"
  shows "\<exists>ts. match3 keyfunc deletedfunc base local remote = Some (ts, None)
     \<and> (\<forall>t \<in> set ts. \<exists>k. triple_keys keyfunc t = {k})
     \<and> (\<forall>k \<in> keyfunc ` (set base \<union> set local \<union> set remote).
           \<exists>!n. n < length ts \<and> k \<in> triple_keys keyfunc (ts ! n))
     \<and> (\<forall>u \<in> set base. \<exists>l r. (Some u, l, r) \<in> set ts)
     \<and> (\<forall>u \<in> set local. \<exists>b r. (b, Some u, r) \<in> set ts)
     \<and> (\<forall>u \<in> set remote. \<exists>b l. (b, l, Some u) \<in> set ts)"
proof -
  let ?K = "all_keys keyfunc base local remote"
  let ?f = "\<lambda>k. triple_of (slot keyfunc base local remote k)"
  from match3_result[of keyfunc deletedfunc base local remote] obtain ks where
    m: "match3 keyfunc deletedfunc base local remote = Some (map ?f ks, None)"
    and d: "distinct ks" and s: "set ks = ?K"
    by (auto simp: emitted_of_def)
  have one: "\<forall>t \<in> set (map ?f ks). \<exists>k. triple_keys keyfunc t = {k}"
    using s by (auto simp: triple_keys_slot)
  have uniq: "\<exists>!n. n < length (map ?f ks) \<and> k \<in> triple_keys keyfunc (map ?f ks ! n)"
    if "k \<in> ?K" for k
  proof -
    from that s obtain n where n: "n < length ks" "ks ! n = k"
      by (metis in_set_conv_nth)
    have tk: "triple_keys keyfunc (map ?f ks ! j) = {ks ! j}" if "j < length ks" for j
      using that s nth_mem[of j ks] by (simp add: triple_keys_slot)
    show ?thesis
    proof (rule ex1I[of _ n])
      show "n < length (map ?f ks) \<and> k \<in> triple_keys keyfunc (map ?f ks ! n)"
        using n tk[of n] by auto
    next
      fix j
      assume "j < length (map ?f ks) \<and> k \<in> triple_keys keyfunc (map ?f ks ! j)"
      then have "j < length ks" "ks ! j = k" using tk by auto
      then show "j = n" using n d nth_eq_iff_index_eq[of ks j n] by simp
    qed
  qed
  have ub: "\<exists>l r. (Some u, l, r) \<in> set (map ?f ks)" if "u \<in> set base" for u
  proof -
    have "keyfunc u \<in> set ks" using that s by (auto simp: all_keys_def)
    then have "?f (keyfunc u) \<in> set (map ?f ks)" by simp
    then show ?thesis
      using last_with_distinct[OF assms(1) that] by (auto simp: triple_of_def slot_def)
  qed
  have ul: "\<exists>b r. (b, Some u, r) \<in> set (map ?f ks)" if "u \<in> set local" for u
  proof -
    have "keyfunc u \<in> set ks" using that s by (auto simp: all_keys_def)
    then have "?f (keyfunc u) \<in> set (map ?f ks)" by simp
    then show ?thesis
      using last_with_distinct[OF assms(2) that] by (auto simp: triple_of_def slot_def)
  qed
  have ur: "\<exists>b l. (b, l, Some u) \<in> set (map ?f ks)" if "u \<in> set remote" for u
  proof -
    have "keyfunc u \<in> set ks" using that s by (auto simp: all_keys_def)
    then have "?f (keyfunc u) \<in> set (map ?f ks)" by simp
    then show ?thesis
      using last_with_distinct[OF assms(3) that] by (auto simp: triple_of_def slot_def)
  qed
  have K: "?K = keyfunc ` (set base \<union> set local \<union> set remote)" by (simp add: all_keys_def)
  have uniq': "\<forall>k \<in> keyfunc ` (set base \<union> set local \<union> set remote).
           \<exists>!n. n < length (map ?f ks) \<and> k \<in> triple_keys keyfunc (map ?f ks ! n)"
    using uniq unfolding K by (rule ballI)
  from ub have ub': "\<forall>u \<in> set base. \<exists>l r. (Some u, l, r) \<in> set (map ?f ks)" by (rule ballI)
  from ul have ul': "\<forall>u \<in> set local. \<exists>b r. (b, Some u, r) \<in> set (map ?f ks)" by (rule ballI)
  from ur have ur': "\<forall>u \<in> set remote. \<exists>b l. (b, l, Some u) \<in> set (map ?f ks)" by (rule ballI)
  show ?thesis
    by (rule exI[of _ "map ?f ks"]) (intro conjI m one uniq' ub' ul' ur')
qed

theorem match3_coverage_witness:
  "distinct (map test_key [''a'', ''b'', ''c'', ''d''])
   \<and> distinct (map test_key [''a'', ''c'', ''b'', ''e'', ''~d''])
   \<and> distinct (map test_key [''b'', ''c'', ''~d'', ''~a''])
   \<and> (\<exists>ts. match3 test_key test_deleted [''a'', ''b'', ''c'', ''d'']
              [''a'', ''c'', ''b'', ''e'', ''~d''] [''b'', ''c'', ''~d'', ''~a'']
            = Some (ts, None)
          \<and> ts = [(Some ''a'', Some ''a'', Some ''~a''), (Some ''c'', Some ''c'', Some ''c''),
                  (Some ''b'', Some ''b'', Some ''b''), (None, Some ''e'', None),
                  (Some ''d'', Some ''~d'', Some ''~d'')]
          \<and> (\<forall>t \<in> set ts. \<exists>k. triple_keys test_key t = {k})
          \<and> (\<forall>k \<in> test_key ` (set [''a'', ''b'', ''c'', ''d'']
                          \<union> set [''a'', ''c'', ''b'', ''e'', ''~d'']
                          \<union> set [''b'', ''c'', ''~d'', ''~a'']).
                \<exists>!n. n < length ts \<and> k \<in> triple_keys test_key (ts ! n)))"
proof -
  let ?B = "[''a'', ''b'', ''c'', ''d'']"
  let ?L = "[''a'', ''c'', ''b'', ''e'', ''~d'']"
  let ?R = "[''b'', ''c'', ''~d'', ''~a'']"
  have d1: "distinct (map test_key ?B)" by (simp add: test_key_def)
  have d2: "distinct (map test_key ?L)" by (simp add: test_key_def)
  have d3: "distinct (map test_key ?R)" by (simp add: test_key_def)
  have ev: "match3 test_key test_deleted ?B ?L ?R
      = Some ([(Some ''a'', Some ''a'', Some ''~a''), (Some ''c'', Some ''c'', Some ''c''),
               (Some ''b'', Some ''b'', Some ''b''), (None, Some ''e'', None),
               (Some ''d'', Some ''~d'', Some ''~d'')], None)"
    by code_simp
  from match3_coverage[OF d1 d2 d3, of test_deleted] obtain ts where
    t: "match3 test_key test_deleted ?B ?L ?R = Some (ts, None)"
       "\<forall>t \<in> set ts. \<exists>k. triple_keys test_key t = {k}"
       "\<forall>k \<in> test_key ` (set ?B \<union> set ?L \<union> set ?R).
           \<exists>!n. n < length ts \<and> k \<in> triple_keys test_key (ts ! n)"
    by blast
  from t(1) ev have e: "ts = [(Some ''a'', Some ''a'', Some ''~a''), (Some ''c'', Some ''c'', Some ''c''),
               (Some ''b'', Some ''b'', Some ''b''), (None, Some ''e'', None),
               (Some ''d'', Some ''~d'', Some ''~d'')]"
    by simp
  show ?thesis
    by (intro conjI d1 d2 d3 exI[of _ ts] t e)
qed

section \<open>The bands of the merged catalog\<close>





section \<open>Conflicts of the header\<close>

lemma last_with_id: "last_with (\<lambda>x. x) k xs = (if k \<in> set xs then Some k else None)"
  by (induction xs) auto

lemma merge_each_slots:
  "merge_each (emitted_of (\<lambda>x. x) b l r ks)
     = Inr (map (\<lambda>k. if kept_key b l r k then Some k else None) ks)"
  by (induction ks)
     (auto simp: emitted_of_def triple_of_def slot_def last_with_id merge_simple_def kept_key_def)

lemma merge_list_result:
  "\<exists>ks. merge_list b l r = Some (Inr ks) \<and> distinct ks \<and> set ks = {k. kept_key b l r k}"
proof -
  from match3_result[of "\<lambda>x. x" "\<lambda>x. False" b l r] obtain ks0 where
    m: "match3 (\<lambda>x. x) (\<lambda>x. False) b l r = Some (emitted_of (\<lambda>x. x) b l r ks0, None)"
    and d: "distinct ks0" and s: "set ks0 = all_keys (\<lambda>x. x) b l r"
    by blast
  have f: "map the [o1 \<leftarrow> map (\<lambda>k. if kept_key b l r k then Some k else None) ks. o1 \<noteq> None]
      = filter (kept_key b l r) ks" for ks
    by (induction ks) auto
  have "merge_list b l r
      = Some (Inr (map the [o1 \<leftarrow> map (\<lambda>k. if kept_key b l r k then Some k else None) ks0.
                              o1 \<noteq> None]))"
    by (simp add: merge_list_def m merge_each_slots)
  then have "merge_list b l r = Some (Inr (filter (kept_key b l r) ks0))"
    by (simp only: f)
  moreover have "set (filter (kept_key b l r) ks0) = {k. kept_key b l r k}"
    using s by (auto simp: all_keys_def kept_key_def)
  ultimately show ?thesis using d by (metis distinct_filter)
qed

lemma sign_digits_sign:
  "sign_digits str = Some (g, r) \<Longrightarrow> \<exists>f. sign_factor g = Inr f"
  by (cases str) (auto simp: sign_factor_def split: if_splits option.splits)

lemma time_pattern_match_sign:
  "time_pattern_match str = Some m \<Longrightarrow> \<exists>f. sign_factor (group6 m) = Inr f"
  by (auto simp: time_pattern_match_def Option.bind_eq_Some_conv dest: sign_digits_sign)

lemma get_time_Some: "\<exists>t. get_time mk tz (Some str) = Inr t"
  by (auto simp: get_time_def Let_def split: option.splits dest: time_pattern_match_sign)

lemma newer_present:
  assumes "map_of ld a \<noteq> None" "map_of rd a \<noteq> None"
  shows "\<exists>b. newer mk tz ld rd a = Inr b"
proof -
  from assms obtain x y where xy: "map_of ld a = Some x" "map_of rd a = Some y" by auto
  from get_time_Some[of mk tz x] get_time_Some[of mk tz y] show ?thesis
    by (auto simp: newer_def xy)
qed

text \<open>
  The keys that the loop of the header merge visits are those of \<open>merge_list\<close> on
  the three key lists. A key among them whose values conflict has a value in local and in
  remote: the default \<^verbatim>\<open><unset>\<close> of the note and the test
  \<^verbatim>\<open>res is not None\<close> of the source are for a key that one side has deleted, and
  the loop never visits such a key.
\<close>

lemma kept_conflict_present:
  assumes "kept_key (map fst bd) (map fst ld) (map fst rd) k" and "conflicting bd ld rd k"
  shows "map_of ld k \<noteq> None \<and> map_of rd k \<noteq> None"
proof (cases "k \<in> set (map fst bd)")
  case True
  with assms(1) have "k \<in> set (map fst ld)" "k \<in> set (map fst rd)"
    by (simp_all add: kept_key_def)
  then show ?thesis
    by (simp add: map_of_eq_None_iff)
next
  case False
  then have "map_of bd k = None"
    by (simp add: map_of_eq_None_iff)
  with assms(2) have "map_of ld k \<noteq> None" "map_of rd k \<noteq> None"
    unfolding conflicting_def by metis+
  then show ?thesis
    by blast
qed

lemma merge_simple_bool: "\<exists>f. merge_simple (a::bool) b c = Inr f"
  by (cases a; cases b; cases c) (auto simp add: merge_simple_def)

lemma merge_header_key_count:
  assumes "conflicting bd ld rd k \<longrightarrow> (\<exists>b. newer mk tz ld rd (arbiter k) = Inr b)"
  shows "\<exists>out'. merge_header_key mk tz bd ld rd local remote k (out, c)
           = Inr (out', if conflicting bd ld rd k then 1 else c)"
proof (cases "conflicting bd ld rd k")
  case False
  then show ?thesis
    by (auto simp: merge_header_key_def conflicting_def Let_def)
next
  case True
  with assms obtain b where b: "newer mk tz ld rd (arbiter k) = Inr b" by blast
  have b': "newer mk tz ld rd (if k \<in> template_headers then ''POT-Creation-Date''
      else ''PO-Revision-Date'') = Inr b"
    using b by (simp add: arbiter_def)
  show ?thesis
    using True
    by (auto simp: merge_header_key_def conflicting_def b' Let_def)
qed

lemma merge_header_keys_count:
  assumes "\<forall>k \<in> set ks. conflicting bd ld rd k \<longrightarrow> (\<exists>b. newer mk tz ld rd (arbiter k) = Inr b)"
  shows "\<exists>out'. merge_header_keys mk tz bd ld rd local remote ks (out, c)
           = Inr (out', if \<exists>k \<in> set ks. conflicting bd ld rd k then 1 else c)"
  using assms
proof (induction ks arbitrary: out c)
  case Nil
  then show ?case by simp
next
  case (Cons k ks)
  from Cons.prems have
    hk: "conflicting bd ld rd k \<longrightarrow> (\<exists>b. newer mk tz ld rd (arbiter k) = Inr b)"
    and hks: "\<forall>k \<in> set ks. conflicting bd ld rd k \<longrightarrow> (\<exists>b. newer mk tz ld rd (arbiter k) = Inr b)"
    by simp_all
  from merge_header_key_count[OF hk, of local remote out c] obtain out1 where
    s1: "merge_header_key mk tz bd ld rd local remote k (out, c)
           = Inr (out1, if conflicting bd ld rd k then 1 else c)"
    by blast
  from Cons.IH[OF hks, of out1 "if conflicting bd ld rd k then 1 else c"] obtain out2 where
    s2: "merge_header_keys mk tz bd ld rd local remote ks (out1, if conflicting bd ld rd k then 1 else c)
           = Inr (out2, if \<exists>k \<in> set ks. conflicting bd ld rd k then 1
                        else if conflicting bd ld rd k then 1 else c)"
    by blast
  show ?case
    using s1 s2 by auto
qed

text \<open>
  When the arbitrating date is present in local and in remote for every visited key that
  conflicts, the header merge returns; its conflict count is at most 1, and it is 1 exactly
  if some visited key conflicts.
\<close>

lemma merge_header_count:
  fixes parse :: "string \<Rightarrow> (string \<times> string) list"
    and base local remote :: pounit
  defines "bd \<equiv> parse (mainstring (u_target base))"
    and "ld \<equiv> parse (mainstring (u_target local))"
    and "rd \<equiv> parse (mainstring (u_target remote))"
  assumes dates: "\<forall>k. kept_key (map fst bd) (map fst ld) (map fst rd) k \<and> conflicting bd ld rd k
      \<longrightarrow> map_of ld (arbiter k) \<noteq> None \<and> map_of rd (arbiter k) \<noteq> None"
  shows "\<exists>out' c.
      merge_header parse mktime timezone out base local remote = Some (Inr (out', c))
      \<and> c \<le> 1
      \<and> (c = 1 \<longleftrightarrow> (\<exists>k. kept_key (map fst bd) (map fst ld) (map fst rd) k \<and> conflicting bd ld rd k))"
proof -
  from merge_list_result[of "map fst bd" "map fst ld" "map fst rd"] obtain keys where
    ml: "merge_list (map fst bd) (map fst ld) (map fst rd) = Some (Inr keys)"
    and s: "set keys = {k. kept_key (map fst bd) (map fst ld) (map fst rd) k}"
    by blast
  have h: "\<forall>k \<in> set keys. conflicting bd ld rd k
      \<longrightarrow> (\<exists>b. newer mktime timezone ld rd (arbiter k) = Inr b)"
    using dates s newer_present by blast
  let ?c = "if \<exists>k \<in> set keys. conflicting bd ld rd k then 1 else (0::nat)"
  from merge_header_keys_count[OF h, of local remote "out\<lparr>u_target := plain []\<rparr>" 0]
  obtain out1 where
    r: "merge_header_keys mktime timezone bd ld rd local remote keys (out\<lparr>u_target := plain []\<rparr>, 0)
          = Inr (out1, ?c)"
    by auto
  obtain f where f: "merge_simple (isfuzzy base) (isfuzzy local) (isfuzzy remote) = Inr f"
    using merge_simple_bool by blast
  have m: "merge_header parse mktime timezone out base local remote
      = Some (Inr (markfuzzy f out1, ?c))"
    by (simp add: merge_header_def Let_def ml r f bd_def[symmetric] ld_def[symmetric]
        rd_def[symmetric])
  have c1: "?c \<le> 1" by simp
  have c2: "?c = 1 \<longleftrightarrow> (\<exists>k. kept_key (map fst bd) (map fst ld) (map fst rd) k \<and> conflicting bd ld rd k)"
    using s by auto
  show ?thesis
    by (intro exI[of _ "markfuzzy f out1"] exI[of _ ?c] conjI m c1 c2)
qed

text \<open>
  The run of the header test: the revision dates of local and remote are in the same zone
  and local is the later one; the language and the revision date are taken from local and
  the values of remote are noted.
\<close>

lemma merge_header_same_zone:
  "merge_header parseheaderstring utc_mktime 0 fresh_unit
       example_base_header example_local_header example_remote_header
     = Some (Inr (fresh_unit\<lparr>u_target := plain (''Language: cs'' @ [CHR 0x0A]
         @ ''POT-Creation-Date: 2013-12-11 11:30+0100'' @ [CHR 0x0A]
         @ ''PO-Revision-Date: 2013-12-11 11:50+0100'' @ [CHR 0x0A]),
         u_translator_notes := [''(conflict) remote (???): Language: cs_CZ'',
            ''(conflict) remote (???): PO-Revision-Date: 2013-12-11 11:40+0100'']\<rparr>, 1))"
  by code_simp

text \<open>
  Claim C4. The header merge is claimed to return the count 1 whenever at least one header
  key has pairwise distinct values in base, local and remote, and to give a conflicting
  key the value of local if and only if local is newer than remote by the arbitrating date.
  Both fail. First, base has \<open>X: a\<close>, local has changed it to \<open>X: b\<close> and
  remote has deleted it: the three values are pairwise distinct, but \<open>merge_list\<close>
  drops the key \<open>X\<close> before the loop compares values, so the merge returns the count
  0 and an empty header, whatever the clock. Second, local and remote conflict on the
  language, the revision date of local is 12:00 in the zone \<open>+0000\<close> and that of
  remote is 12:30 in the zone \<open>+0200\<close>: local is the later instant, but the merge
  takes the language of remote, because \<open>get_time\<close> adds the offset of the zone.
\<close>

theorem merge_header_dropped_conflict:
  "merge_header parseheaderstring mktime timezone fresh_unit
      (header_of (''X: a'' @ [CHR 0x0A])) (header_of (''X: b'' @ [CHR 0x0A])) (header_of [])
     = Some (Inr (fresh_unit, 0))
   \<and> conflicting (parseheaderstring (''X: a'' @ [CHR 0x0A]))
        (parseheaderstring (''X: b'' @ [CHR 0x0A])) (parseheaderstring []) ''X''
   \<and> merge_header parseheaderstring utc_mktime timezone fresh_unit
        (header_of ''Language: '') zone_local_header zone_remote_header
     = Some (Inr (fresh_unit\<lparr>u_target := plain (''Language: cs_CZ'' @ [CHR 0x0A]
           @ ''PO-Revision-Date: 2013-12-11 12:30+0200'' @ [CHR 0x0A]),
         u_translator_notes := [''(conflict) local (???): Language: cs'',
           ''(conflict) local (???): PO-Revision-Date: 2013-12-11 12:00+0000'']\<rparr>, 1))
   \<and> spec_utc_instant (utc_mktime (2013, 12, 11, 12, 30, 0, 0, 0, 0)) 1 2 0
       < spec_utc_instant (utc_mktime (2013, 12, 11, 12, 0, 0, 0, 0, 0)) 1 0 0"
proof -
  have p: "parseheaderstring (mainstring (u_target (header_of (''X: a'' @ [CHR 0x0A]))))
       = [(''X'', ''a'')]"
    "parseheaderstring (mainstring (u_target (header_of (''X: b'' @ [CHR 0x0A]))))
       = [(''X'', ''b'')]"
    "parseheaderstring (mainstring (u_target (header_of []))) = []"
    by code_simp+
  have l: "merge_list (map fst [(''X'', ''a'')]) (map fst [(''X'', ''b'')]) (map fst [])
       = Some (Inr [])"
    by code_simp
  have a: "merge_header parseheaderstring mktime timezone fresh_unit
      (header_of (''X: a'' @ [CHR 0x0A])) (header_of (''X: b'' @ [CHR 0x0A])) (header_of [])
     = Some (Inr (fresh_unit, 0))"
    unfolding merge_header_def Let_def p l
    by (simp add: header_of_def fresh_unit_def plain_def merge_simple_def isfuzzy_def
        markfuzzy_def)
  have p': "parseheaderstring (''X: a'' @ [CHR 0x0A]) = [(''X'', ''a'')]"
    "parseheaderstring (''X: b'' @ [CHR 0x0A]) = [(''X'', ''b'')]"
    "parseheaderstring [] = []"
    by code_simp+
  have b: "conflicting (parseheaderstring (''X: a'' @ [CHR 0x0A]))
        (parseheaderstring (''X: b'' @ [CHR 0x0A])) (parseheaderstring []) ''X''"
    unfolding p' by (simp add: conflicting_def)
  have q: "parseheaderstring (mainstring (u_target (header_of ''Language: '')))
       = [(''Language'', [])]"
    "parseheaderstring (mainstring (u_target zone_local_header))
       = [(''Language'', ''cs''), (''PO-Revision-Date'', ''2013-12-11 12:00+0000'')]"
    "parseheaderstring (mainstring (u_target zone_remote_header))
       = [(''Language'', ''cs_CZ''), (''PO-Revision-Date'', ''2013-12-11 12:30+0200'')]"
    by code_simp+
  have k: "merge_list (map fst [(''Language'', [])])
       (map fst [(''Language'', ''cs''), (''PO-Revision-Date'', ''2013-12-11 12:00+0000'')])
       (map fst [(''Language'', ''cs_CZ''), (''PO-Revision-Date'', ''2013-12-11 12:30+0200'')])
     = Some (Inr [''Language'', ''PO-Revision-Date''])"
    by code_simp
  have g: "get_time utc_mktime timezone (Some ''2013-12-11 12:00+0000'')
       = Inr (1386763200 + timezone)"
    "get_time utc_mktime timezone (Some ''2013-12-11 12:30+0200'')
       = Inr (1386772320 + timezone)"
    by (simp_all add: get_time_def time_pattern_match_def is_digit_def is_space_def
        spaces_star_def opt_seconds_def int_of_digits_def digit_value_def eval_nat_numeral
        sign_factor_def days_from_civil_def)
  have n: "newer utc_mktime timezone
       [(''Language'', ''cs''), (''PO-Revision-Date'', ''2013-12-11 12:00+0000'')]
       [(''Language'', ''cs_CZ''), (''PO-Revision-Date'', ''2013-12-11 12:30+0200'')]
       ''PO-Revision-Date'' = Inr False"
    by (simp add: newer_def g)
  have c: "merge_header parseheaderstring utc_mktime timezone fresh_unit
        (header_of ''Language: '') zone_local_header zone_remote_header
     = Some (Inr (fresh_unit\<lparr>u_target := plain (''Language: cs_CZ'' @ [CHR 0x0A]
           @ ''PO-Revision-Date: 2013-12-11 12:30+0200'' @ [CHR 0x0A]),
         u_translator_notes := [''(conflict) local (???): Language: cs'',
           ''(conflict) local (???): PO-Revision-Date: 2013-12-11 12:00+0000'']\<rparr>, 1))"
    unfolding merge_header_def Let_def q k
    by (simp add: Let_def merge_header_key_def template_headers_def n
        header_of_def zone_local_header_def zone_remote_header_def fresh_unit_def plain_def
        append_header_line_def header_line_def addnote_def conflict_note_def store_filename_def
        get_or_def merge_simple_def isfuzzy_def markfuzzy_def)
  have d: "spec_utc_instant (utc_mktime (2013, 12, 11, 12, 30, 0, 0, 0, 0)) 1 2 0
       < spec_utc_instant (utc_mktime (2013, 12, 11, 12, 0, 0, 0, 0, 0)) 1 0 0"
    by (simp add: spec_utc_instant_def days_from_civil_def)
  show ?thesis
    by (intro conjI a b c d)
qed

section \<open>The conflict of two translations\<close>

lemma py_format_plain:
  "CHR ''%'' \<notin> set xs \<Longrightarrow>
     py_format (xs @ fmt) args
       = (case py_format fmt args of Inl e \<Rightarrow> Inl e | Inr str \<Rightarrow> Inr (xs @ str))"
  by (induction xs) (auto split: sum.splits)

lemma marker_template_value:
  assumes "u_store local = Some sl" "u_store remote = Some sr"
  shows "marker_template local remote =
     Inr (''#-#-#-#-#  '' @ store_filename local ''local'' @ '' ('' @ project_label local
          @ '')  #-#-#-#-#'' @ [CHR 0x0A] @ ''%s'' @ [CHR 0x0A]
          @ ''#-#-#-#-#  '' @ store_filename remote ''remote'' @ '' ('' @ project_label remote
          @ '')  #-#-#-#-#'' @ [CHR 0x0A] @ ''%s'' @ [CHR 0x0A])"
  by (simp add: marker_template_def store_project_def project_label_def assms marker_literal_def)

lemma py_format_end: "CHR ''%'' \<notin> set xs \<Longrightarrow> py_format xs [] = Inr xs"
  using py_format_plain[of xs "[]" "[]"] by simp

lemma py_format_plain_s:
  "CHR ''%'' \<notin> set xs \<Longrightarrow>
     py_format (xs @ ''%s'' @ fmt) (a # args)
       = (case py_format fmt args of Inl e \<Rightarrow> Inl e | Inr str \<Rightarrow> Inr (xs @ a @ str))"
  by (simp add: py_format_plain split: sum.splits)

lemma py_format_two:
  assumes "CHR ''%'' \<notin> set x1" "CHR ''%'' \<notin> set x2" "CHR ''%'' \<notin> set x3"
  shows "py_format (x1 @ ''%s'' @ x2 @ ''%s'' @ x3) [l, r] = Inr (x1 @ l @ x2 @ r @ x3)"
  by (simp only: py_format_plain_s[OF assms(1)] py_format_plain_s[OF assms(2)]
      py_format_end[OF assms(3)] sum.case)

lemma format_marker:
  assumes "CHR ''%'' \<notin> set fl" "CHR ''%'' \<notin> set pl" "CHR ''%'' \<notin> set fr" "CHR ''%'' \<notin> set pr"
  shows "py_format (''#-#-#-#-#  '' @ fl @ '' ('' @ pl
          @ '')  #-#-#-#-#'' @ [CHR 0x0A] @ ''%s'' @ [CHR 0x0A]
          @ ''#-#-#-#-#  '' @ fr @ '' ('' @ pr
          @ '')  #-#-#-#-#'' @ [CHR 0x0A] @ ''%s'' @ [CHR 0x0A]) [l, r]
       = Inr (conflict_block fl pl fr pr l r)"
proof -
  let ?x1 = "''#-#-#-#-#  '' @ fl @ '' ('' @ pl @ '')  #-#-#-#-#'' @ [CHR 0x0A]"
  let ?x2 = "[CHR 0x0A] @ ''#-#-#-#-#  '' @ fr @ '' ('' @ pr @ '')  #-#-#-#-#'' @ [CHR 0x0A]"
  let ?x3 = "[CHR 0x0A]"
  have p: "CHR ''%'' \<notin> set ?x1" "CHR ''%'' \<notin> set ?x2" "CHR ''%'' \<notin> set ?x3"
    using assms by simp_all
  have "py_format (?x1 @ ''%s'' @ ?x2 @ ''%s'' @ ?x3) [l, r] = Inr (?x1 @ l @ ?x2 @ r @ ?x3)"
    by (rule py_format_two[OF p])
  then show ?thesis by (simp add: conflict_block_def)
qed

lemma format_all_marker:
  assumes "\<And>l r. py_format tmpl [l, r] = Inr (block l r)"
  shows "format_all tmpl lrs = Inr (map (\<lambda>(l, r). block l r) lrs)"
  by (induction lrs) (auto simp: assms)

lemma strings_pad: "pad_to n (strings t) = mainstring t # tl (pad_to n (strings t))"
  by (simp add: pad_to_def strings_def)

lemma strings_pad_hd: "hd (pad_to n (strings t)) = mainstring t"
  by (simp add: pad_to_def strings_def)

lemma length_pad_to: "length (pad_to n xs) = max n (length xs)"
  by (simp add: pad_to_def)

lemma pad_to_twice:
  "pad_to (length (pad_to (length rs) ls)) rs = pad_to (length ls) rs"
  by (auto simp: pad_to_def)

text \<open>
  For units that have a store and labels without a percent sign, the target merge of a
  true conflict is what the specification says: the side with the strictly higher
  quality is adopted with no conflict, and a tie gives the conflict marker of the
  specification, a fuzzy output and one conflict.
\<close>

lemma tie_target_value:
  assumes f: "\<And>l r. py_format tmpl [l, r] = Inr (block l r)"
  shows "tie_target tmpl out local remote =
     Inr (markfuzzy True
            (out\<lparr>u_target :=
               (if hasplural local then
                  MultiString (block (mainstring (u_target local)) (mainstring (u_target remote)))
                    (map (\<lambda>(l, r). block l r)
                       (zip (tl (pad_to (length (strings (u_target remote)))
                                   (strings (u_target local))))
                            (tl (pad_to (length (strings (u_target local)))
                                   (strings (u_target remote))))))
                else plain (block (mainstring (u_target local))
                              (mainstring (u_target remote))))\<rparr>), 1)"
proof -
  let ?ls = "pad_to (length (strings (u_target remote))) (strings (u_target local))"
  let ?rs = "pad_to (length (strings (u_target local))) (strings (u_target remote))"
  obtain ls' where l: "?ls = mainstring (u_target local) # ls'"
    using strings_pad by blast
  obtain rs' where r: "?rs = mainstring (u_target remote) # rs'"
    using strings_pad by blast
  show ?thesis
    unfolding tie_target_def Let_def pad_to_twice
    by (simp add: l r f format_all_marker[of tmpl block, OF f])
qed

lemma merge_target_conflict:
  assumes "\<not> equal_translation base local" "\<not> equal_translation base remote"
    and "\<not> equal_translation local remote"
    and "u_store local = Some sl" "u_store remote = Some sr"
    and "CHR ''%'' \<notin> set (store_filename local ''local'')"
    and "CHR ''%'' \<notin> set (project_label local)"
    and "CHR ''%'' \<notin> set (store_filename remote ''remote'')"
    and "CHR ''%'' \<notin> set (project_label remote)"
  shows "merge_target out base local remote =
     (if quality local > quality remote then Inr (set_translation_from local out, 0)
      else if quality remote > quality local then Inr (set_translation_from remote out, 0)
      else Inr (markfuzzy True (out\<lparr>u_target := conflict_marker local remote\<rparr>), 1))"
proof -
  let ?block = "conflict_block (store_filename local ''local'') (project_label local)
                    (store_filename remote ''remote'') (project_label remote)"
  obtain tmpl where t: "marker_template local remote = Inr tmpl"
    and f: "\<And>l r. py_format tmpl [l, r] = Inr (?block l r)"
    using marker_template_value[OF assms(4,5)] format_marker[OF assms(6-9)] by blast
  show ?thesis
    using assms(1-3)
    by (simp add: merge_target_def Let_def t tie_target_value[of tmpl ?block, OF f]
        conflict_marker_def)
qed

text \<open>
  Claim C3. For every triple of units whose translations are pairwise not equivalent, a
  tie of the qualities is claimed to set the target to the conflict marker, mark the
  output fuzzy and return the conflict count 1. The source builds the template of the
  marker by formatting the labels into a string and formats the two translations into
  the result, so a percent sign of a label is read as a conversion specification. With
  the project version \<open>100%safe\<close> in the header of the local store the template has
  three specifications \<^verbatim>\<open>%s\<close> for two arguments: the three translations differ
  pairwise, both sides have quality 2, and the target merge raises \<open>TypeError\<close>
  instead of returning a conflict count.
\<close>

theorem merge_target_percent_raises:
  "\<not> equal_translation (unit_of ''foo'' ''bar'') ((unit_of ''foo'' ''baz'')\<lparr>u_store := Some percent_store\<rparr>)
   \<and> \<not> equal_translation (unit_of ''foo'' ''bar'') ((unit_of ''foo'' ''qyzzy'')\<lparr>u_store := Some plain_store\<rparr>)
   \<and> \<not> equal_translation ((unit_of ''foo'' ''baz'')\<lparr>u_store := Some percent_store\<rparr>)
         ((unit_of ''foo'' ''qyzzy'')\<lparr>u_store := Some plain_store\<rparr>)
   \<and> quality ((unit_of ''foo'' ''baz'')\<lparr>u_store := Some percent_store\<rparr>) = 2
   \<and> quality ((unit_of ''foo'' ''qyzzy'')\<lparr>u_store := Some plain_store\<rparr>) = 2
   \<and> merge_target (empty_unit ((unit_of ''foo'' ''baz'')\<lparr>u_store := Some percent_store\<rparr>))
        (unit_of ''foo'' ''bar'')
        ((unit_of ''foo'' ''baz'')\<lparr>u_store := Some percent_store\<rparr>)
        ((unit_of ''foo'' ''qyzzy'')\<lparr>u_store := Some plain_store\<rparr>)
      = Inl TypeError"
  by code_simp

end
